theory Spec2Isabelle
  imports Complex_Main "HOL-Library.Sublist" "HOL-Library.AList" "HOL-Library.Multiset"
begin

section \<open>The rollout notebook \<open>3_my_rollout_model.ipynb\<close>\<close>

text \<open>
  The notebook is a straight-line script: credentials, grid loading, feature generation,
  model loading, prediction, quintile binning, export, plots. Python floats are modelled
  as \<^typ>\<open>real\<close> (no rounding, no NaN); exceptions are values of \<open>error + 'a\<close>.
\<close>

subsection \<open>Errors\<close>

datatype error =
    EOFError
  | FileNotFoundError string
  | UnpicklingError string
  | DriverError string
  | KeyError string
  | ValueError string
  | TypeError string
  | NameError string
  | PermissionError string
  | ExternalError string

subsection \<open>Credentials (cell 5)\<close>

text \<open>
  The interactive console: the lines the user will type, and the prompts shown so far.
  \<open>input(p)\<close> and \<open>getpass.getpass(p)\<close> both show the prompt \<open>p\<close> and read one line;
  with no line left they raise \<open>EOFError\<close> (the prompt has been shown by then).
\<close>

record console =
  stdin :: "string list"
  prompts :: "string list"

definition input_py :: "string \<Rightarrow> console \<Rightarrow> (error + string) \<times> console" where
  "input_py p c =
     (case stdin c of
        [] \<Rightarrow> (Inl EOFError, c\<lparr>prompts := prompts c @ [p]\<rparr>)
      | l # ls \<Rightarrow> (Inr l, c\<lparr>stdin := ls, prompts := prompts c @ [p]\<rparr>))"

definition getpass :: "string \<Rightarrow> console \<Rightarrow> (error + string) \<times> console" where
  "getpass p c = input_py p c"

text \<open>
  \<^verbatim>\<open>username = os.environ.get("EOG_USER", None)\<close>
  \<^verbatim>\<open>username = username if username is not None else input("Username?")\<close>
\<close>

definition get_username :: "(string \<rightharpoonup> string) \<Rightarrow> console \<Rightarrow> (error + string) \<times> console" where
  "get_username env c =
     (let u0 = env ''EOG_USER''
      in case u0 of Some u \<Rightarrow> (Inr u, c) | None \<Rightarrow> input_py ''Username?'' c)"

text \<open>
  \<^verbatim>\<open>password = os.environ.get("EOG_PASSWORD", None)\<close>
  \<^verbatim>\<open>password = password if password is not None else getpass.getpass("Password?")\<close>
\<close>

definition get_password :: "(string \<rightharpoonup> string) \<Rightarrow> console \<Rightarrow> (error + string) \<times> console" where
  "get_password env c =
     (let p0 = env ''EOG_PASSWORD''
      in case p0 of Some p \<Rightarrow> (Inr p, c) | None \<Rightarrow> getpass ''Password?'' c)"

subsection \<open>Data frames\<close>

text \<open>
  A cell of the grid frame is a string, a float, a polygon or \<open>None\<close>. A frame has an
  index of \<open>nrows\<close> positions (a \<open>RangeIndex\<close>) and an ordered list of named columns.
\<close>

datatype val = Str string | Num real | Geom "(real \<times> real) list" | NoneVal

record 'a dataframe =
  nrows :: nat
  cols :: "(string \<times> 'a list) list"

definition columns :: "'a dataframe \<Rightarrow> string list" where
  "columns df = map fst (cols df)"

definition well_formed :: "'a dataframe \<Rightarrow> bool" where
  "well_formed df \<longleftrightarrow>
     distinct (columns df) \<and> list_all (\<lambda>c. length (snd c) = nrows df) (cols df)"

text \<open>\<^verbatim>\<open>df[name]\<close>: the column, or \<open>KeyError\<close>.\<close>

definition getitem :: "string \<Rightarrow> 'a dataframe \<Rightarrow> error + 'a list" where
  "getitem name df =
     (case map_of (cols df) name of None \<Rightarrow> Inl (KeyError name) | Some c \<Rightarrow> Inr c)"

text \<open>
  \<^verbatim>\<open>df[name] = values\<close>: pandas refuses values whose length is not the length of the index;
  an existing column is replaced where it stands, a new one is appended.
\<close>

definition setitem :: "string \<Rightarrow> 'a list \<Rightarrow> 'a dataframe \<Rightarrow> error + 'a dataframe" where
  "setitem name vs df =
     (if length vs \<noteq> nrows df
      then Inl (ValueError ''Length of values does not match length of index'')
      else Inr (df\<lparr>cols := AList.update name vs (cols df)\<rparr>))"

text \<open>\<^verbatim>\<open>df[[col for col in df.columns if P(col)]]\<close>: a new frame with the chosen columns.\<close>

definition select_columns :: "(string \<Rightarrow> bool) \<Rightarrow> 'a dataframe \<Rightarrow> 'a dataframe" where
  "select_columns P df = df\<lparr>cols := filter (\<lambda>c. P (fst c)) (cols df)\<rparr>"

text \<open>\<^verbatim>\<open>df.iloc[i]\<close> as a list of named values, and \<^verbatim>\<open>df.values\<close>, the matrix of rows.\<close>

definition iloc :: "'a dataframe \<Rightarrow> nat \<Rightarrow> (string \<times> 'a) list" where
  "iloc df i = map (\<lambda>c. (fst c, snd c ! i)) (cols df)"

definition values_of :: "'a dataframe \<Rightarrow> 'a list list" where
  "values_of df = map (\<lambda>i. map snd (iloc df i)) [0..<nrows df]"

text \<open>
  \<^verbatim>\<open>left.join(right)\<close>: a left join on the index into a new frame. Overlapping column names
  raise \<open>ValueError\<close>; an index position the right frame lacks is filled with \<open>None\<close>.
\<close>

definition join :: "val dataframe \<Rightarrow> real dataframe \<Rightarrow> error + val dataframe" where
  "join left right =
     (if \<exists>c \<in> set (columns right). c \<in> set (columns left)
      then Inl (ValueError ''columns overlap but no suffix specified'')
      else Inr (left\<lparr>cols := cols left @
             map (\<lambda>c. (fst c, map (\<lambda>i. if i < length (snd c) then Num (snd c ! i) else NoneVal)
                                 [0..<nrows left])) (cols right)\<rparr>))"

text \<open>\<^verbatim>\<open>"_scaled" in col\<close>: substring test.\<close>

fun contains :: "string \<Rightarrow> string \<Rightarrow> bool" where
  "contains sub [] = (sub = [])"
| "contains sub (c # cs) = (prefix sub (c # cs) \<or> contains sub cs)"

subsection \<open>Min-max scaling\<close>

text \<open>
  \<open>sklearn.preprocessing.MinMaxScaler().fit_transform\<close> on one column, with the default
  feature range (0, 1): \<open>X * scale_ + min_\<close> where \<open>scale_ = 1 / data_range\<close>, a zero
  range being replaced by 1, and \<open>min_ = 0 - data_min * scale_\<close>. An empty column is
  refused.
\<close>

definition MinMaxScaler :: "real list \<Rightarrow> error + real list" where
  "MinMaxScaler xs =
     (if xs = [] then Inl (ValueError ''Found array with 0 sample(s)'')
      else let data_min = Min (set xs);
               data_max = Max (set xs);
               data_range = data_max - data_min;
               scale = 1 / (if data_range = 0 then 1 else data_range);
               min0 = 0 - data_min * scale
           in Inr (map (\<lambda>x. x * scale + min0) xs))"

subsection \<open>Feature generation\<close>

text \<open>The first exception of a sequence of computations is the one that propagates.\<close>

fun sequence :: "(error + 'a) list \<Rightarrow> error + 'a list" where
  "sequence [] = Inr []"
| "sequence (r # rs) =
     (case r of
        Inl e \<Rightarrow> Inl e
      | Inr x \<Rightarrow> (case sequence rs of Inl e \<Rightarrow> Inl e | Inr xs \<Rightarrow> Inr (x # xs)))"

type_synonym feature = "string \<times> ((string \<times> val) list \<Rightarrow> error + real)"

text \<open>
  Modelled from the spec: the per-tile part of \<open>generate_features\<close>, which is not among
  the sources. The spec has it compute features for each row of the grid (points of
  interest, roads, network speed, night lights); the computation itself (spatial joins
  against downloaded data sets) is the parameter \<open>f\<close>, a fallible function of the tile,
  applied to the rows in order.
\<close>

definition raw_column :: "((string \<times> val) list \<Rightarrow> error + real) \<Rightarrow> val dataframe \<Rightarrow> error + real list" where
  "raw_column f df = sequence (map (\<lambda>i. f (iloc df i)) [0..<nrows df])"

text \<open>
  Modelled from the spec: \<open>povertymapping.feature_engineering.generate_features\<close> is not
  among the sources. The spec has it compute the per-tile features and min-max scale the
  feature columns; the notebook calls it with \<open>scaled_only=False\<close>, \<open>features_only=True\<close>
  and \<open>sklearn_scaler=MinMaxScaler\<close>, and reads the scaled columns back by the suffix
  \<open>_scaled\<close>. The features are the parameter \<open>feats\<close>: a name and a computation for each.
  The grid frame it is given is read, not changed: the notebook's \<open>rollout_aoi.info()\<close>
  after it lists the input columns only.
\<close>

definition generate_features :: "feature list \<Rightarrow> val dataframe \<Rightarrow> error + real dataframe" where
  "generate_features feats df =
     (case sequence (map (\<lambda>ft. case raw_column (snd ft) df of
                                  Inl e \<Rightarrow> Inl e | Inr xs \<Rightarrow> Inr (fst ft, xs)) feats) of
        Inl e \<Rightarrow> Inl e
      | Inr raw \<Rightarrow>
          (case sequence (map (\<lambda>c. case MinMaxScaler (snd c) of
                                      Inl e \<Rightarrow> Inl e
                                    | Inr ys \<Rightarrow> Inr (fst c @ ''_scaled'', ys)) raw) of
             Inl e \<Rightarrow> Inl e
           | Inr scaled \<Rightarrow> Inr \<lparr>nrows = nrows df, cols = raw @ scaled\<rparr>))"

subsection \<open>Quintile binning\<close>

text \<open>
  Modelled from the spec: the labels of \<open>categorize_wealth_index\<close>, which is not among
  the sources. Five ordinal labels, A the highest and E the lowest; here from the lowest
  bin to the highest.
\<close>

definition labels :: "string list" where
  "labels = [''E'', ''D'', ''C'', ''B'', ''A'']"

text \<open>
  Modelled from the spec: the percentiles behind the quintiles of
  \<open>categorize_wealth_index\<close>. The \<open>k/m\<close> quantile of the sorted scores \<open>s\<close> is read at
  position \<open>k (n - 1) / m\<close>, with linear interpolation between the two neighbouring order
  statistics.
\<close>

definition quantile_linear :: "real list \<Rightarrow> nat \<Rightarrow> nat \<Rightarrow> real" where
  "quantile_linear s k m =
     (let pos = k * (length s - 1);
          lo = pos div m;
          hi = min (Suc lo) (length s - 1);
          frac = real (pos mod m) / real m
      in s ! lo + frac * (s ! hi - s ! lo))"

text \<open>
  Modelled from the spec: the bin edges of \<open>categorize_wealth_index\<close>, every 20th
  percentile: the 20th, 40th, 60th and 80th.
\<close>

definition quintile_edges :: "real list \<Rightarrow> real list" where
  "quintile_edges xs =
     (if xs = [] then [] else map (\<lambda>k. quantile_linear (sort xs) k 5) [1, 2, 3, 4])"

text \<open>
  Modelled from the spec: the bin of a score, counted from the lowest: the number of
  edges strictly below it, so that an edge belongs to the bin below it.
\<close>

definition bin_of :: "real list \<Rightarrow> real \<Rightarrow> nat" where
  "bin_of edges x = length (filter (\<lambda>t. t < x) edges)"

text \<open>
  Modelled from the spec: \<open>povertymapping.feature_engineering.categorize_wealth_index\<close> is
  not among the sources. The spec has it bin the score column by quantiles into five
  ordinal labels, one bin per 20 percentiles: every score gets the label of its bin.
\<close>

definition categorize_wealth_index :: "real list \<Rightarrow> string list" where
  "categorize_wealth_index xs =
     (let edges = quintile_edges xs in map (\<lambda>x. labels ! bin_of edges x) xs)"

text \<open>
  The bin of the \<open>i\<close>-th smallest of \<open>n\<close> untied scores, by position alone: the number
  of quintile positions \<open>k (n - 1) / 5\<close> below \<open>i\<close>.
\<close>

definition quintile_rank :: "nat \<Rightarrow> nat \<Rightarrow> nat" where
  "quintile_rank n i = length (filter (\<lambda>k. k * (n - 1) div 5 < i) [1, 2, 3, 4])"

text \<open>
  No tie at a quintile edge: at each of the four quintile positions the sorted scores
  step up strictly from that position to the next.
\<close>

definition no_tie_at_edges :: "real list \<Rightarrow> bool" where
  "no_tie_at_edges xs =
     list_all (\<lambda>k. let lo = k * (length xs - 1) div 5
                    in Suc lo < length xs \<longrightarrow> sort xs ! lo < sort xs ! Suc lo)
       [1, 2, 3, 4]"

subsection \<open>The notebook's state\<close>

text \<open>
  Files hold a grid (GeoJSON, kept as the frame it encodes: the text encoding of floats
  and coordinates is not modelled), a pickled model (its \<open>predict\<close>), or an image.
\<close>

type_synonym predictor = "real list list \<Rightarrow> error + real list"

datatype file_data = GeoJSON "val dataframe" | Pickle predictor | PNG string

text \<open>
  The kernel's variables and the world around it. Grid frames are objects in \<open>heap\<close>,
  and \<open>aoi\<close>, \<open>rollout_aoi\<close> hold references to them, since the notebook updates
  \<open>rollout_aoi\<close> in place. \<open>raised\<close> is the exception that stopped the run, if any.
\<close>

record notebook =
  environ :: "string \<rightharpoonup> string"
  cons :: console
  files :: "string \<rightharpoonup> file_data"
  writable :: "string \<Rightarrow> bool"
  heap :: "nat \<rightharpoonup> val dataframe"
  next_ref :: nat
  raised :: "error option"
  username :: "string option"
  password :: "string option"
  access_token :: "string option"
  aoi :: "nat option"
  rollout_aoi :: "nat option"
  raw_features :: "real dataframe option"
  features :: "real dataframe option"
  model :: "predictor option"
  rollout_output_with_features :: "val dataframe option"

text \<open>
  What the notebook calls but does not define: the token service of
  \<open>povertymapping.nightlights\<close>, the per-tile feature computations, the plotting stack,
  and the date taken from the working directory.
\<close>

record externals =
  get_eog_access_token :: "string \<Rightarrow> string \<Rightarrow> error + string"
  feature_defs :: "feature list"
  render :: "string \<Rightarrow> val dataframe \<Rightarrow> error + string"
  rollout_date :: string

definition COUNTRY_CODE :: string where
  "COUNTRY_CODE = ''my''"

definition rollout_grids_path :: "externals \<Rightarrow> string" where
  "rollout_grids_path ext = rollout_date ext @ ''-'' @ COUNTRY_CODE @ ''-rollout-grids.geojson''"

definition MODEL_SAVE_PATH :: "externals \<Rightarrow> string" where
  "MODEL_SAVE_PATH ext = ''../'' @ rollout_date ext @ ''-cross-country-model.pkl''"

definition rollout_output_path :: "externals \<Rightarrow> string" where
  "rollout_output_path ext = rollout_date ext @ ''-'' @ COUNTRY_CODE @ ''-rollout-output.geojson''"

definition rollout_output_with_features_path :: "externals \<Rightarrow> string" where
  "rollout_output_with_features_path ext =
     rollout_date ext @ ''-'' @ COUNTRY_CODE @ ''-rollout-output-with-features.geojson''"

definition wealth_index_png :: "externals \<Rightarrow> string" where
  "wealth_index_png ext = rollout_date ext @ ''-'' @ COUNTRY_CODE @ ''-predicted-wealth-index.png''"

definition wealth_bin_png :: "externals \<Rightarrow> string" where
  "wealth_bin_png ext = rollout_date ext @ ''-'' @ COUNTRY_CODE @ ''-predicted-wealth-bin.png''"

definition WEALTH_INDEX :: string where
  "WEALTH_INDEX = ''Predicted Relative Wealth Index''"

definition WEALTH_CATEGORY :: string where
  "WEALTH_CATEGORY = ''Predicted Wealth Category (quintile)''"

definition raise :: "error \<Rightarrow> notebook \<Rightarrow> notebook" where
  "raise e s = s\<lparr>raised := Some e\<rparr>"

text \<open>\<^verbatim>\<open>gpd.read_file(path)\<close>: a missing or malformed file raises.\<close>

definition read_file :: "string \<Rightarrow> (string \<rightharpoonup> file_data) \<Rightarrow> error + val dataframe" where
  "read_file path fs =
     (case fs path of
        Some (GeoJSON df) \<Rightarrow> if well_formed df then Inr df else Inl (DriverError path)
      | _ \<Rightarrow> Inl (DriverError path))"

text \<open>\<^verbatim>\<open>df.to_file(path, driver="GeoJSON", index=False)\<close>\<close>

definition to_file :: "string \<Rightarrow> val dataframe \<Rightarrow> notebook \<Rightarrow> notebook" where
  "to_file path df s =
     (if writable s path then s\<lparr>files := (files s)(path \<mapsto> GeoJSON df)\<rparr>
      else raise (PermissionError path) s)"

text \<open>A variable holding a grid frame: unbound names raise \<open>NameError\<close>.\<close>

definition deref :: "string \<Rightarrow> nat option \<Rightarrow> notebook \<Rightarrow> error + nat \<times> val dataframe" where
  "deref name var s =
     (case var of
        None \<Rightarrow> Inl (NameError name)
      | Some r \<Rightarrow> (case heap s r of None \<Rightarrow> Inl (NameError name) | Some df \<Rightarrow> Inr (r, df)))"

definition the_nums :: "val list \<Rightarrow> error + real list" where
  "the_nums vs =
     sequence (map (\<lambda>v. case v of Num x \<Rightarrow> Inr x | _ \<Rightarrow> Inl (TypeError ''not a number'')) vs)"

subsection \<open>The cells\<close>

text \<open>
  Cell 5:
  \<^verbatim>\<open>username = os.environ.get("EOG_USER", None)\<close>
  \<^verbatim>\<open>username = username if username is not None else input("Username?")\<close>
  \<^verbatim>\<open>password = os.environ.get("EOG_PASSWORD", None)\<close>
  \<^verbatim>\<open>password = password if password is not None else getpass.getpass("Password?")\<close>
  \<^verbatim>\<open>access_token = nightlights.get_eog_access_token(username, password, save_token=True)\<close>
\<close>

definition cell5 :: "externals \<Rightarrow> notebook \<Rightarrow> notebook" where
  "cell5 ext s =
     (case get_username (environ s) (cons s) of
        (Inl e, c1) \<Rightarrow> raise e (s\<lparr>cons := c1\<rparr>)
      | (Inr u, c1) \<Rightarrow>
          (case get_password (environ s) c1 of
             (Inl e, c2) \<Rightarrow> raise e (s\<lparr>cons := c2, username := Some u\<rparr>)
           | (Inr p, c2) \<Rightarrow>
               (case get_eog_access_token ext u p of
                  Inl e \<Rightarrow> raise e (s\<lparr>cons := c2, username := Some u, password := Some p\<rparr>)
                | Inr t \<Rightarrow> s\<lparr>cons := c2, username := Some u, password := Some p,
                              access_token := Some t\<rparr>)))"

text \<open>Cell 11: \<^verbatim>\<open>aoi = gpd.read_file(rollout_grids_path)\<close>\<close>

definition cell11 :: "externals \<Rightarrow> notebook \<Rightarrow> notebook" where
  "cell11 ext s =
     (case read_file (rollout_grids_path ext) (files s) of
        Inl e \<Rightarrow> raise e s
      | Inr df \<Rightarrow> s\<lparr>heap := (heap s)(next_ref s \<mapsto> df), next_ref := Suc (next_ref s),
                     aoi := Some (next_ref s)\<rparr>)"

text \<open>
  Cell 14:
  \<^verbatim>\<open>rollout_aoi = aoi.copy()\<close>
  \<^verbatim>\<open>features = generate_features(rollout_aoi, ..., scaled_only=False, sklearn_scaler=scaler, features_only=True, use_aoi_quadkey=True)\<close>
\<close>

definition cell14 :: "externals \<Rightarrow> notebook \<Rightarrow> notebook" where
  "cell14 ext s =
     (case deref ''aoi'' (aoi s) s of
        Inl e \<Rightarrow> raise e s
      | Inr (a, df) \<Rightarrow>
          (let s1 = s\<lparr>heap := (heap s)(next_ref s \<mapsto> df), next_ref := Suc (next_ref s),
                      rollout_aoi := Some (next_ref s)\<rparr>
           in case generate_features (feature_defs ext) df of
                Inl e \<Rightarrow> raise e s1
              | Inr f \<Rightarrow> s1\<lparr>features := Some f\<rparr>))"

text \<open>
  Cell 15:
  \<^verbatim>\<open>raw_features = features[[col for col in features.columns if "_scaled" not in col]]\<close>
  \<^verbatim>\<open>features = features[[col for col in features.columns if "_scaled" in col]]\<close>
\<close>

definition cell15 :: "externals \<Rightarrow> notebook \<Rightarrow> notebook" where
  "cell15 ext s =
     (case features s of
        None \<Rightarrow> raise (NameError ''features'') s
      | Some f \<Rightarrow>
          s\<lparr>raw_features := Some (select_columns (\<lambda>col. \<not> contains ''_scaled'' col) f),
            features := Some (select_columns (\<lambda>col. contains ''_scaled'' col) f)\<rparr>)"

text \<open>
  Cell 20:
  \<^verbatim>\<open>with open(MODEL_SAVE_PATH, "rb") as f:\<close>
  \<^verbatim>\<open>    model = pickle.load(f)\<close>
\<close>

definition cell20 :: "externals \<Rightarrow> notebook \<Rightarrow> notebook" where
  "cell20 ext s =
     (case files s (MODEL_SAVE_PATH ext) of
        None \<Rightarrow> raise (FileNotFoundError (MODEL_SAVE_PATH ext)) s
      | Some (Pickle m) \<Rightarrow> s\<lparr>model := Some m\<rparr>
      | Some _ \<Rightarrow> raise (UnpicklingError (MODEL_SAVE_PATH ext)) s)"

text \<open>
  Cell 22:
  \<^verbatim>\<open>rollout_aoi["Predicted Relative Wealth Index"] = model.predict(features.values)\<close>
\<close>

definition cell22 :: "externals \<Rightarrow> notebook \<Rightarrow> notebook" where
  "cell22 ext s =
     (case model s of
        None \<Rightarrow> raise (NameError ''model'') s
      | Some m \<Rightarrow>
          (case features s of
             None \<Rightarrow> raise (NameError ''features'') s
           | Some f \<Rightarrow>
               (case m (values_of f) of
                  Inl e \<Rightarrow> raise e s
                | Inr ys \<Rightarrow>
                    (case deref ''rollout_aoi'' (rollout_aoi s) s of
                       Inl e \<Rightarrow> raise e s
                     | Inr (r, df) \<Rightarrow>
                         (case setitem WEALTH_INDEX (map Num ys) df of
                            Inl e \<Rightarrow> raise e s
                          | Inr df' \<Rightarrow> s\<lparr>heap := (heap s)(r \<mapsto> df')\<rparr>)))))"

text \<open>
  Cell 24:
  \<^verbatim>\<open>rollout_aoi["Predicted Wealth Category (quintile)"] = categorize_wealth_index(\<close>
  \<^verbatim>\<open>    rollout_aoi["Predicted Relative Wealth Index"]\<close>
  \<^verbatim>\<open>).astype(str)\<close>
\<close>

definition cell24 :: "externals \<Rightarrow> notebook \<Rightarrow> notebook" where
  "cell24 ext s =
     (case deref ''rollout_aoi'' (rollout_aoi s) s of
        Inl e \<Rightarrow> raise e s
      | Inr (r, df) \<Rightarrow>
          (case getitem WEALTH_INDEX df of
             Inl e \<Rightarrow> raise e s
           | Inr col \<Rightarrow>
               (case the_nums col of
                  Inl e \<Rightarrow> raise e s
                | Inr xs \<Rightarrow>
                    (case setitem WEALTH_CATEGORY (map Str (categorize_wealth_index xs)) df of
                       Inl e \<Rightarrow> raise e s
                     | Inr df' \<Rightarrow> s\<lparr>heap := (heap s)(r \<mapsto> df')\<rparr>))))"

text \<open>
  Cell 28:
  \<^verbatim>\<open>rollout_aoi.to_file(f"{rollout_date}-{COUNTRY_CODE}-rollout-output.geojson", driver="GeoJSON", index=False)\<close>
\<close>

definition cell28 :: "externals \<Rightarrow> notebook \<Rightarrow> notebook" where
  "cell28 ext s =
     (case deref ''rollout_aoi'' (rollout_aoi s) s of
        Inl e \<Rightarrow> raise e s
      | Inr (r, df) \<Rightarrow> to_file (rollout_output_path ext) df s)"

text \<open>
  Cell 29:
  \<^verbatim>\<open>rollout_output_with_features = rollout_aoi.join(raw_features).join(features)\<close>
  \<^verbatim>\<open>rollout_output_with_features.to_file(f"{rollout_date}-{COUNTRY_CODE}-rollout-output-with-features.geojson", driver="GeoJSON", index=False)\<close>
\<close>

definition cell29 :: "externals \<Rightarrow> notebook \<Rightarrow> notebook" where
  "cell29 ext s =
     (case deref ''rollout_aoi'' (rollout_aoi s) s of
        Inl e \<Rightarrow> raise e s
      | Inr (r, df) \<Rightarrow>
          (case raw_features s of
             None \<Rightarrow> raise (NameError ''raw_features'') s
           | Some rf \<Rightarrow>
               (case join df rf of
                  Inl e \<Rightarrow> raise e s
                | Inr j1 \<Rightarrow>
                    (case features s of
                       None \<Rightarrow> raise (NameError ''features'') s
                     | Some f \<Rightarrow>
                         (case join j1 f of
                            Inl e \<Rightarrow> raise e s
                          | Inr j2 \<Rightarrow>
                              to_file (rollout_output_with_features_path ext) j2
                                (s\<lparr>rollout_output_with_features := Some j2\<rparr>))))))"

text \<open>
  Cells 34 and 36: the frame is reprojected into a new frame, drawn by the given column
  over a base map, and the figure saved. The drawing is external.
  \<^verbatim>\<open>rollout_aoi_plot = rollout_aoi.to_crs("EPSG:3857")\<close>
  \<^verbatim>\<open>ax = rollout_aoi_plot.plot("Predicted Relative Wealth Index", ...)\<close>
  \<^verbatim>\<open>plt.savefig(f"{rollout_date}-{COUNTRY_CODE}-predicted-wealth-index.png")\<close>
\<close>

definition plot_cell :: "string \<Rightarrow> string \<Rightarrow> externals \<Rightarrow> notebook \<Rightarrow> notebook" where
  "plot_cell column path ext s =
     (case deref ''rollout_aoi'' (rollout_aoi s) s of
        Inl e \<Rightarrow> raise e s
      | Inr (r, df) \<Rightarrow>
          (case render ext column df of
             Inl e \<Rightarrow> raise e s
           | Inr img \<Rightarrow>
               if writable s path then s\<lparr>files := (files s)(path \<mapsto> PNG img)\<rparr>
               else raise (PermissionError path) s))"

definition cell34 :: "externals \<Rightarrow> notebook \<Rightarrow> notebook" where
  "cell34 ext s = plot_cell WEALTH_INDEX (wealth_index_png ext) ext s"

definition cell36 :: "externals \<Rightarrow> notebook \<Rightarrow> notebook" where
  "cell36 ext s = plot_cell WEALTH_CATEGORY (wealth_bin_png ext) ext s"

text \<open>
  Two expressions of the notebook, as values of the state: \<^verbatim>\<open>rollout_aoi[name]\<close>, and the
  score column that cell 24 hands to \<open>categorize_wealth_index\<close>.
\<close>

definition rollout_aoi_getitem :: "string \<Rightarrow> notebook \<Rightarrow> error + val list" where
  "rollout_aoi_getitem name s =
     (case deref ''rollout_aoi'' (rollout_aoi s) s of
        Inl e \<Rightarrow> Inl e
      | Inr (r, df) \<Rightarrow> getitem name df)"

definition wealth_scores :: "notebook \<Rightarrow> error + real list" where
  "wealth_scores s =
     (case rollout_aoi_getitem WEALTH_INDEX s of Inl e \<Rightarrow> Inl e | Inr col \<Rightarrow> the_nums col)"

subsection \<open>Running the notebook\<close>

text \<open>
  The cells run top to bottom. No cell has a \<open>try\<close>: once an exception is raised the
  run stops, which is to say the remaining cells are not executed. The cells that only
  set constants or display something (\<open>aoi.info()\<close>, \<open>rollout_aoi.head(2)\<close>, the
  histogram) change nothing of the state and are left out.
\<close>

definition run_cell :: "(notebook \<Rightarrow> notebook) \<Rightarrow> notebook \<Rightarrow> notebook" where
  "run_cell c s = (if raised s = None then c s else s)"

fun run_cells :: "(notebook \<Rightarrow> notebook) list \<Rightarrow> notebook \<Rightarrow> notebook" where
  "run_cells [] s = s"
| "run_cells (c # cs) s = run_cells cs (run_cell c s)"

definition cells :: "externals \<Rightarrow> (notebook \<Rightarrow> notebook) list" where
  "cells ext = [cell5 ext, cell11 ext, cell14 ext, cell15 ext, cell20 ext, cell22 ext,
                cell24 ext, cell28 ext, cell29 ext, cell34 ext, cell36 ext]"

text \<open>A fresh kernel: no variable bound, no object allocated, nothing raised.\<close>

definition fresh_kernel ::
  "(string \<rightharpoonup> string) \<Rightarrow> string list \<Rightarrow> (string \<rightharpoonup> file_data) \<Rightarrow> (string \<Rightarrow> bool) \<Rightarrow> notebook" where
  "fresh_kernel env lines fs w =
     \<lparr>environ = env, cons = \<lparr>stdin = lines, prompts = []\<rparr>, files = fs, writable = w,
      heap = Map.empty, next_ref = 0, raised = None, username = None, password = None,
      access_token = None, aoi = None, rollout_aoi = None, raw_features = None,
      features = None, model = None, rollout_output_with_features = None\<rparr>"


text \<open>The columns of the grid file, as \<^verbatim>\<open>aoi.info()\<close> lists them.\<close>

definition grid_columns :: "string list" where
  "grid_columns = [''quadkey'', ''shapeName'', ''shapeISO'', ''shapeID'', ''shapeGroup'',
                   ''shapeType'', ''pop_count'', ''geometry'']"


subsection \<open>A small run\<close>

text \<open>
  The first two tiles of the notebook's output, one feature (the tile's population), and
  three models: one that halves the feature sum, one that doubles it, and one that
  refuses the feature matrix.
\<close>

definition example_grid :: "val dataframe" where
  "example_grid = \<lparr>nrows = 2, cols =
     [(''quadkey'', [Str ''13223202222021'', Str ''13223202222023'']),
      (''shapeName'', [Str ''Klang'', Str ''Klang'']),
      (''shapeISO'', [NoneVal, NoneVal]),
      (''shapeID'', [Str ''MYS-ADM2-3_0_0-B57'', Str ''MYS-ADM2-3_0_0-B57'']),
      (''shapeGroup'', [Str ''MYS'', Str ''MYS'']),
      (''shapeType'', [Str ''ADM2'', Str ''ADM2'']),
      (''pop_count'', [Num 1948, Num 5633]),
      (''geometry'', [Geom [(101, 2), (101, 3), (102, 3)],
                      Geom [(101, 1), (101, 2), (102, 2)]])]\<rparr>"

definition example_feature :: "(string \<times> val) list \<Rightarrow> error + real" where
  "example_feature row =
     (case map_of row ''pop_count'' of
        Some (Num x) \<Rightarrow> Inr x
      | _ \<Rightarrow> Inl (ExternalError ''no population''))"

definition example_externals :: externals where
  "example_externals =
     \<lparr>get_eog_access_token = (\<lambda>u p. Inr ''token''),
      feature_defs = [(''pop'', example_feature)],
      render = (\<lambda>column df. Inr column),
      rollout_date = ''2023-02-21''\<rparr>"

definition halving_model :: predictor where
  "halving_model rows = Inr (map (\<lambda>r. sum_list r / 2) rows)"



definition example_kernel :: "predictor \<Rightarrow> notebook" where
  "example_kernel m =
     fresh_kernel [''EOG_USER'' \<mapsto> ''ann''] [''s3cret'']
       [''2023-02-21-my-rollout-grids.geojson'' \<mapsto> GeoJSON example_grid,
        ''../2023-02-21-cross-country-model.pkl'' \<mapsto> Pickle m]
       (\<lambda>path. True)"

section \<open>Properties\<close>

subsection \<open>Credentials\<close>

lemma get_username_prompts:
  "prompts (snd (get_username env c)) =
     prompts c @ (if env ''EOG_USER'' = None then [''Username?''] else [])"
  by (simp add: get_username_def input_py_def split: option.splits list.splits)

lemma get_password_prompts:
  "prompts (snd (get_password env c)) =
     prompts c @ (if env ''EOG_PASSWORD'' = None then [''Password?''] else [])"
  by (simp add: get_password_def getpass_def input_py_def split: option.splits list.splits)

lemma cell5_prompts:
  "prompts (cons (cell5 ext s)) = prompts (cons s)
     @ (if environ s ''EOG_USER'' = None then [''Username?''] else [])
     @ (if environ s ''EOG_PASSWORD'' = None
           \<and> (environ s ''EOG_USER'' \<noteq> None \<or> stdin (cons s) \<noteq> [])
        then [''Password?''] else [])"
  by (simp add: cell5_def get_username_def get_password_def getpass_def input_py_def
      raise_def split: option.split list.split sum.split)

lemma cell5_username:
  "environ s ''EOG_USER'' = Some u \<Longrightarrow> username (cell5 ext s) = Some u"
  by (simp add: cell5_def get_username_def get_password_def getpass_def input_py_def
      raise_def split: option.split list.split sum.split)

lemma cell5_password:
  "environ s ''EOG_PASSWORD'' = Some p \<Longrightarrow>
   environ s ''EOG_USER'' \<noteq> None \<or> stdin (cons s) \<noteq> [] \<Longrightarrow>
   password (cell5 ext s) = Some p"
  by (auto simp add: cell5_def get_username_def get_password_def getpass_def input_py_def
      raise_def split: option.split list.split sum.split)

text \<open>
  C7. The username comes from \<open>EOG_USER\<close> and the password from \<open>EOG_PASSWORD\<close>. Each of
  the two acquisitions shows its prompt exactly when its variable is unset, and when the
  variable is set its value is the result and the console is untouched (no prompt, no
  line read). In cell 5 as a whole the username acquisition always runs and the password
  acquisition runs unless the username prompt raised (no line to read): the prompts shown
  are the username prompt if \<open>EOG_USER\<close> is unset, followed by the password prompt if
  \<open>EOG_PASSWORD\<close> is unset and the username was obtained; a variable that is set ends up
  as the value of \<open>username\<close>, respectively \<open>password\<close>.
\<close>

theorem credentials_from_environment:
  "(prompts (snd (get_username env c)) = prompts c @ [''Username?'']
      \<longleftrightarrow> env ''EOG_USER'' = None)
   \<and> (prompts (snd (get_username env c)) = prompts c
      \<longleftrightarrow> env ''EOG_USER'' \<noteq> None)
   \<and> (prompts (snd (get_password env c)) = prompts c @ [''Password?'']
      \<longleftrightarrow> env ''EOG_PASSWORD'' = None)
   \<and> (prompts (snd (get_password env c)) = prompts c
      \<longleftrightarrow> env ''EOG_PASSWORD'' \<noteq> None)
   \<and> (\<forall>u. env ''EOG_USER'' = Some u \<longrightarrow> get_username env c = (Inr u, c))
   \<and> (\<forall>p. env ''EOG_PASSWORD'' = Some p \<longrightarrow> get_password env c = (Inr p, c))
   \<and> prompts (cons (cell5 ext s)) = prompts (cons s)
       @ (if environ s ''EOG_USER'' = None then [''Username?''] else [])
       @ (if environ s ''EOG_PASSWORD'' = None
             \<and> (environ s ''EOG_USER'' \<noteq> None \<or> stdin (cons s) \<noteq> [])
          then [''Password?''] else [])
   \<and> (\<forall>u. environ s ''EOG_USER'' = Some u \<longrightarrow> username (cell5 ext s) = Some u)
   \<and> (\<forall>p. environ s ''EOG_PASSWORD'' = Some p
          \<and> (environ s ''EOG_USER'' \<noteq> None \<or> stdin (cons s) \<noteq> [])
          \<longrightarrow> password (cell5 ext s) = Some p)"
proof (intro conjI)
  show "prompts (snd (get_username env c)) = prompts c @ [''Username?'']
      \<longleftrightarrow> env ''EOG_USER'' = None"
    by (simp add: get_username_prompts)
  show "prompts (snd (get_username env c)) = prompts c
      \<longleftrightarrow> env ''EOG_USER'' \<noteq> None"
    by (simp add: get_username_prompts)
  show "prompts (snd (get_password env c)) = prompts c @ [''Password?'']
      \<longleftrightarrow> env ''EOG_PASSWORD'' = None"
    by (simp add: get_password_prompts)
  show "prompts (snd (get_password env c)) = prompts c
      \<longleftrightarrow> env ''EOG_PASSWORD'' \<noteq> None"
    by (simp add: get_password_prompts)
  show "\<forall>u. env ''EOG_USER'' = Some u \<longrightarrow> get_username env c = (Inr u, c)"
    by (simp add: get_username_def)
  show "\<forall>p. env ''EOG_PASSWORD'' = Some p \<longrightarrow> get_password env c = (Inr p, c)"
    by (simp add: get_password_def)
  show "prompts (cons (cell5 ext s)) = prompts (cons s)
       @ (if environ s ''EOG_USER'' = None then [''Username?''] else [])
       @ (if environ s ''EOG_PASSWORD'' = None
             \<and> (environ s ''EOG_USER'' \<noteq> None \<or> stdin (cons s) \<noteq> [])
          then [''Password?''] else [])"
    by (rule cell5_prompts)
  show "\<forall>u. environ s ''EOG_USER'' = Some u \<longrightarrow> username (cell5 ext s) = Some u"
    by (simp add: cell5_username)
  show "\<forall>p. environ s ''EOG_PASSWORD'' = Some p
          \<and> (environ s ''EOG_USER'' \<noteq> None \<or> stdin (cons s) \<noteq> [])
          \<longrightarrow> password (cell5 ext s) = Some p"
    using cell5_password by blast
qed

theorem credentials_from_environment_witness:
  "environ (example_kernel halving_model) ''EOG_USER'' = Some ''ann''
   \<and> environ (example_kernel halving_model) ''EOG_PASSWORD'' = None
   \<and> prompts (cons (cell5 example_externals (example_kernel halving_model))) = [''Password?'']
   \<and> username (cell5 example_externals (example_kernel halving_model)) = Some ''ann''
   \<and> password (cell5 example_externals (example_kernel halving_model)) = Some ''s3cret''"
proof -
  have e: "environ (example_kernel halving_model) ''EOG_USER'' = Some ''ann''"
      "environ (example_kernel halving_model) ''EOG_PASSWORD'' = None"
      "prompts (cons (example_kernel halving_model)) = []"
    by (simp_all add: example_kernel_def fresh_kernel_def)
  have p: "password (cell5 example_externals (example_kernel halving_model)) = Some ''s3cret''"
    by (simp add: example_kernel_def fresh_kernel_def cell5_def get_username_def
        get_password_def getpass_def input_py_def example_externals_def)
  from credentials_from_environment
    [of "environ (example_kernel halving_model)" "cons (example_kernel halving_model)"
        example_externals "example_kernel halving_model"] e p
  show ?thesis by simp
qed

subsection \<open>Running cells\<close>

lemma run_cells_raised: "raised s \<noteq> None \<Longrightarrow> run_cells cs s = s"
  by (induction cs arbitrary: s) (auto simp: run_cell_def)

lemma run_cells_append: "run_cells (xs @ ys) s = run_cells ys (run_cells xs s)"
  by (induction xs arbitrary: s) simp_all

lemma run_cell_ok:
  "raised (run_cell c s) = None \<Longrightarrow> raised s = None \<and> run_cell c s = c s"
  by (simp add: run_cell_def split: if_splits)

lemma run_cells_ok: "raised (run_cells cs s) = None \<Longrightarrow> raised s = None"
  using run_cells_raised [of s cs] by (cases "raised s") auto

lemma deref_Inr:
  "deref name var s = Inr (r, df) \<longleftrightarrow> var = Some r \<and> heap s r = Some df"
  by (auto simp: deref_def split: option.splits)

lemma cell5_frame:
  "files (cell5 ext s) = files s \<and> writable (cell5 ext s) = writable s
   \<and> heap (cell5 ext s) = heap s \<and> next_ref (cell5 ext s) = next_ref s
   \<and> aoi (cell5 ext s) = aoi s \<and> rollout_aoi (cell5 ext s) = rollout_aoi s
   \<and> features (cell5 ext s) = features s \<and> raw_features (cell5 ext s) = raw_features s
   \<and> model (cell5 ext s) = model s \<and> environ (cell5 ext s) = environ s"
  by (simp add: cell5_def raise_def split: prod.split sum.split)

lemma cell11_ok:
  assumes "raised (cell11 ext s) = None"
  shows "\<exists>df. files s (rollout_grids_path ext) = Some (GeoJSON df) \<and> well_formed df
           \<and> cell11 ext s = s\<lparr>heap := (heap s)(next_ref s \<mapsto> df),
                 next_ref := Suc (next_ref s), aoi := Some (next_ref s)\<rparr>"
  using assms
  by (auto simp: cell11_def read_file_def raise_def
      split: sum.splits option.splits file_data.splits if_splits)

lemma cell14_ok:
  assumes "raised (cell14 ext s) = None"
  shows "\<exists>a df f. aoi s = Some a \<and> heap s a = Some df
           \<and> generate_features (feature_defs ext) df = Inr f
           \<and> cell14 ext s = s\<lparr>heap := (heap s)(next_ref s \<mapsto> df),
                 next_ref := Suc (next_ref s), rollout_aoi := Some (next_ref s),
                 features := Some f\<rparr>"
  using assms
  by (auto simp: cell14_def deref_def raise_def Let_def split: sum.splits option.splits)

lemma cell15_ok:
  assumes "raised (cell15 ext s) = None"
  shows "\<exists>f. features s = Some f
           \<and> cell15 ext s =
               s\<lparr>raw_features := Some (select_columns (\<lambda>col. \<not> contains ''_scaled'' col) f),
                 features := Some (select_columns (\<lambda>col. contains ''_scaled'' col) f)\<rparr>"
  using assms by (auto simp: cell15_def raise_def split: option.splits)

lemma cell20_ok:
  assumes "raised (cell20 ext s) = None"
  shows "\<exists>m. files s (MODEL_SAVE_PATH ext) = Some (Pickle m)
           \<and> cell20 ext s = s\<lparr>model := Some m\<rparr>"
  using assms by (auto simp: cell20_def raise_def split: option.splits file_data.splits)

lemma cell22_ok:
  assumes "raised (cell22 ext s) = None"
  shows "\<exists>r df m f ys. rollout_aoi s = Some r \<and> heap s r = Some df \<and> model s = Some m
           \<and> features s = Some f \<and> m (values_of f) = Inr ys \<and> length ys = nrows df
           \<and> cell22 ext s =
               s\<lparr>heap := (heap s)(r \<mapsto> df\<lparr>cols := AList.update WEALTH_INDEX (map Num ys) (cols df)\<rparr>)\<rparr>"
  using assms
  by (auto simp: cell22_def deref_def setitem_def raise_def
      split: sum.splits option.splits if_splits)

lemma cell24_ok:
  assumes "raised (cell24 ext s) = None"
  shows "\<exists>r df col xs. rollout_aoi s = Some r \<and> heap s r = Some df
           \<and> map_of (cols df) WEALTH_INDEX = Some col \<and> the_nums col = Inr xs
           \<and> length xs = nrows df
           \<and> cell24 ext s =
               s\<lparr>heap := (heap s)(r \<mapsto> df\<lparr>cols := AList.update WEALTH_CATEGORY
                     (map Str (categorize_wealth_index xs)) (cols df)\<rparr>)\<rparr>"
  using assms
  by (auto simp: cell24_def deref_def getitem_def setitem_def raise_def categorize_wealth_index_def
      split: sum.splits option.splits if_splits)

lemma cell28_ok:
  assumes "raised (cell28 ext s) = None"
  shows "\<exists>r df. rollout_aoi s = Some r \<and> heap s r = Some df
           \<and> cell28 ext s = s\<lparr>files := (files s)(rollout_output_path ext \<mapsto> GeoJSON df)\<rparr>"
  using assms
  by (auto simp: cell28_def deref_def to_file_def raise_def
      split: sum.splits option.splits if_splits)

lemma cell29_frame:
  "heap (cell29 ext s) = heap s \<and> next_ref (cell29 ext s) = next_ref s
   \<and> aoi (cell29 ext s) = aoi s \<and> rollout_aoi (cell29 ext s) = rollout_aoi s
   \<and> features (cell29 ext s) = features s \<and> raw_features (cell29 ext s) = raw_features s
   \<and> model (cell29 ext s) = model s
   \<and> (\<forall>p. p \<noteq> rollout_output_with_features_path ext \<longrightarrow> files (cell29 ext s) p = files s p)"
  by (simp add: cell29_def to_file_def raise_def split: prod.split sum.split option.split)

lemma plot_cell_frame:
  "heap (plot_cell column path ext s) = heap s \<and> next_ref (plot_cell column path ext s) = next_ref s
   \<and> aoi (plot_cell column path ext s) = aoi s
   \<and> rollout_aoi (plot_cell column path ext s) = rollout_aoi s
   \<and> features (plot_cell column path ext s) = features s
   \<and> raw_features (plot_cell column path ext s) = raw_features s
   \<and> model (plot_cell column path ext s) = model s
   \<and> (\<forall>p. p \<noteq> path \<longrightarrow> files (plot_cell column path ext s) p = files s p)"
  by (simp add: plot_cell_def raise_def split: prod.split sum.split option.split)

subsection \<open>Feature generation and scaling\<close>

lemma sequence_Inr:
  "sequence rs = Inr xs \<Longrightarrow> rs = map Inr xs"
proof (induction rs arbitrary: xs)
  case Nil
  then show ?case by simp
next
  case (Cons r rs)
  then show ?case by (auto split: sum.splits)
qed

lemma raw_column_length:
  assumes "raw_column g df = Inr xs"
  shows "length xs = nrows df"
proof -
  have "map (\<lambda>i. g (iloc df i)) [0..<nrows df] = map Inr xs"
    using assms unfolding raw_column_def by (rule sequence_Inr)
  then have "length (map (\<lambda>i. g (iloc df i)) [0..<nrows df]) = length (map Inr xs :: (error + real) list)"
    by simp
  then show ?thesis by simp
qed

lemma MinMaxScaler_length: "MinMaxScaler xs = Inr ys \<Longrightarrow> length ys = length xs"
  by (auto simp: MinMaxScaler_def Let_def split: if_splits)

lemma MinMaxScaler_unit_interval:
  assumes "MinMaxScaler xs = Inr ys" and "y \<in> set ys"
  shows "0 \<le> y \<and> y \<le> 1"
proof -
  define lo where "lo = Min (set xs)"
  define hi where "hi = Max (set xs)"
  define scale where "scale = 1 / (if hi - lo = 0 then 1 else hi - lo)"
  have ne: "xs \<noteq> []" using assms(1) by (auto simp: MinMaxScaler_def)
  have "MinMaxScaler xs = Inr (map (\<lambda>x. x * scale + (0 - lo * scale)) xs)"
    unfolding MinMaxScaler_def Let_def lo_def hi_def scale_def by (simp only: ne if_False)
  then have ys: "ys = map (\<lambda>x. x * scale + (0 - lo * scale)) xs"
    using assms(1) by simp
  then obtain x where x: "x \<in> set xs" and y: "y = x * scale + (0 - lo * scale)"
    using assms(2) by auto
  have b: "lo \<le> x" "x \<le> hi" using x by (simp_all add: lo_def hi_def)
  have y': "y = (x - lo) * scale" by (simp add: y algebra_simps)
  show ?thesis
  proof (cases "hi - lo = 0")
    case True
    then have "x = lo" using b by simp
    then show ?thesis by (simp add: y')
  next
    case False
    then have pos: "0 < hi - lo" using b by simp
    have "y = (x - lo) / (hi - lo)" using False by (simp add: y' scale_def)
    then show ?thesis using b pos by simp
  qed
qed

lemma contains_self: "contains sub sub"
  by (cases sub) simp_all

lemma contains_suffix: "contains sub (xs @ sub)"
  by (induction xs) (simp_all add: contains_self)

lemma generate_features_cols:
  assumes "generate_features feats df = Inr f"
  shows "nrows f = nrows df"
    and "\<And>c. c \<in> set (cols f) \<Longrightarrow> length (snd c) = nrows df"
    and "\<And>c. c \<in> set (cols f) \<Longrightarrow>
           fst c \<in> fst ` set feats \<or> (contains ''_scaled'' (fst c) \<and> (\<forall>y \<in> set (snd c). 0 \<le> y \<and> y \<le> 1))"
proof -
  from assms obtain raw scaled where
    raw: "sequence (map (\<lambda>ft. case raw_column (snd ft) df of
                                  Inl e \<Rightarrow> Inl e | Inr xs \<Rightarrow> Inr (fst ft, xs)) feats) = Inr raw"
    and scaled: "sequence (map (\<lambda>c. case MinMaxScaler (snd c) of
                                      Inl e \<Rightarrow> Inl e
                                    | Inr ys \<Rightarrow> Inr (fst c @ ''_scaled'', ys)) raw) = Inr scaled"
    and f: "f = \<lparr>nrows = nrows df, cols = raw @ scaled\<rparr>"
    by (auto simp: generate_features_def split: sum.splits)
  show "nrows f = nrows df" by (simp add: f)
  have raw_eq: "map (\<lambda>ft. case raw_column (snd ft) df of
                  Inl e \<Rightarrow> Inl e | Inr xs \<Rightarrow> Inr (fst ft, xs)) feats = map Inr raw"
    using raw by (rule sequence_Inr)
  have raw_ok: "fst c \<in> fst ` set feats \<and> length (snd c) = nrows df" if "c \<in> set raw" for c
  proof -
    from that obtain i where i: "i < length raw" "raw ! i = c" by (auto simp: in_set_conv_nth)
    have len: "length feats = length raw" using arg_cong [OF raw_eq, of length] by simp
    have "(case raw_column (snd (feats ! i)) df of
             Inl e \<Rightarrow> Inl e | Inr xs \<Rightarrow> Inr (fst (feats ! i), xs)) = Inr c"
      using arg_cong [OF raw_eq, of "\<lambda>l. l ! i"] i len by simp
    then obtain xs where "raw_column (snd (feats ! i)) df = Inr xs" "c = (fst (feats ! i), xs)"
      by (auto split: sum.splits)
    then show ?thesis using raw_column_length i len by (auto simp: image_iff intro!: bexI [of _ "feats ! i"])
  qed
  have sc_eq: "map (\<lambda>c. case MinMaxScaler (snd c) of
                  Inl e \<Rightarrow> Inl e | Inr ys \<Rightarrow> Inr (fst c @ ''_scaled'', ys)) raw = map Inr scaled"
    using scaled by (rule sequence_Inr)
  have sc_ok: "contains ''_scaled'' (fst c) \<and> length (snd c) = nrows df
               \<and> (\<forall>y \<in> set (snd c). 0 \<le> y \<and> y \<le> 1)" if "c \<in> set scaled" for c
  proof -
    from that obtain i where i: "i < length scaled" "scaled ! i = c" by (auto simp: in_set_conv_nth)
    have len: "length raw = length scaled" using arg_cong [OF sc_eq, of length] by simp
    have "(case MinMaxScaler (snd (raw ! i)) of
             Inl e \<Rightarrow> Inl e | Inr ys \<Rightarrow> Inr (fst (raw ! i) @ ''_scaled'', ys)) = Inr c"
      using arg_cong [OF sc_eq, of "\<lambda>l. l ! i"] i len by simp
    then obtain ys where ys: "MinMaxScaler (snd (raw ! i)) = Inr ys"
        "c = (fst (raw ! i) @ ''_scaled'', ys)"
      by (auto split: sum.splits)
    have "raw ! i \<in> set raw" using i len by simp
    then have "length (snd (raw ! i)) = nrows df" using raw_ok by blast
    then have "length ys = nrows df" using MinMaxScaler_length [OF ys(1)] by simp
    moreover have "\<forall>y \<in> set ys. 0 \<le> y \<and> y \<le> 1"
      using MinMaxScaler_unit_interval [OF ys(1)] by blast
    moreover have "contains ''_scaled'' (fst (raw ! i) @ ''_scaled'')"
      by (rule contains_suffix)
    ultimately show ?thesis by (simp add: ys(2))
  qed
  show "length (snd c) = nrows df" if "c \<in> set (cols f)" for c
  proof -
    from that have "c \<in> set raw \<or> c \<in> set scaled" by (simp add: f)
    then show ?thesis using raw_ok [of c] sc_ok [of c] by blast
  qed
  show "fst c \<in> fst ` set feats \<or> (contains ''_scaled'' (fst c) \<and> (\<forall>y \<in> set (snd c). 0 \<le> y \<and> y \<le> 1))"
    if "c \<in> set (cols f)" for c
  proof -
    from that have "c \<in> set raw \<or> c \<in> set scaled" by (simp add: f)
    then show ?thesis using raw_ok [of c] sc_ok [of c] by blast
  qed
qed

subsection \<open>A run that raises nothing\<close>

lemma output_paths_distinct:
  "rollout_output_path ext \<noteq> rollout_output_with_features_path ext"
  "rollout_output_path ext \<noteq> wealth_index_png ext"
  "rollout_output_path ext \<noteq> wealth_bin_png ext"
  by (simp_all add: rollout_output_path_def rollout_output_with_features_path_def
      wealth_index_png_def wealth_bin_png_def)

lemma the_nums_Num: "the_nums (map Num ys) = Inr ys"
  by (induction ys) (simp_all add: the_nums_def)

lemma run_succeeds:
  assumes fin: "raised (run_cells (cells ext) (fresh_kernel env lines fs w)) = None"
  shows "\<exists>df f m ys.
       fs (rollout_grids_path ext) = Some (GeoJSON df) \<and> well_formed df
     \<and> generate_features (feature_defs ext) df = Inr f
     \<and> fs (MODEL_SAVE_PATH ext) = Some (Pickle m)
     \<and> m (values_of (select_columns (\<lambda>col. contains ''_scaled'' col) f)) = Inr ys
     \<and> length ys = nrows df
     \<and> aoi (run_cells (cells ext) (fresh_kernel env lines fs w)) = Some 0
     \<and> rollout_aoi (run_cells (cells ext) (fresh_kernel env lines fs w)) = Some 1
     \<and> heap (run_cells (cells ext) (fresh_kernel env lines fs w)) 0 = Some df
     \<and> heap (run_cells (cells ext) (fresh_kernel env lines fs w)) 1 =
         Some (df\<lparr>cols := AList.update WEALTH_CATEGORY (map Str (categorize_wealth_index ys))
                            (AList.update WEALTH_INDEX (map Num ys) (cols df))\<rparr>)
     \<and> features (run_cells (cells ext) (fresh_kernel env lines fs w)) =
         Some (select_columns (\<lambda>col. contains ''_scaled'' col) f)
     \<and> files (run_cells (cells ext) (fresh_kernel env lines fs w)) (rollout_output_path ext) =
         Some (GeoJSON (df\<lparr>cols := AList.update WEALTH_CATEGORY (map Str (categorize_wealth_index ys))
                            (AList.update WEALTH_INDEX (map Num ys) (cols df))\<rparr>))"
proof -
  define s0 where "s0 = fresh_kernel env lines fs w"
  define s1 where "s1 = run_cell (cell5 ext) s0"
  define s2 where "s2 = run_cell (cell11 ext) s1"
  define s3 where "s3 = run_cell (cell14 ext) s2"
  define s4 where "s4 = run_cell (cell15 ext) s3"
  define s5 where "s5 = run_cell (cell20 ext) s4"
  define s6 where "s6 = run_cell (cell22 ext) s5"
  define s7 where "s7 = run_cell (cell24 ext) s6"
  define s8 where "s8 = run_cell (cell28 ext) s7"
  define s9 where "s9 = run_cell (cell29 ext) s8"
  define s10 where "s10 = run_cell (cell34 ext) s9"
  define s11 where "s11 = run_cell (cell36 ext) s10"
  have final: "run_cells (cells ext) (fresh_kernel env lines fs w) = s11"
    by (simp add: cells_def s0_def s1_def s2_def s3_def s4_def s5_def s6_def s7_def s8_def
        s9_def s10_def s11_def)
  have r11: "raised s11 = None" using fin final by simp
  have c11: "raised s10 = None" "s11 = cell36 ext s10"
    using run_cell_ok [of "cell36 ext" s10] r11 by (simp_all add: s11_def)
  have c10: "raised s9 = None" "s10 = cell34 ext s9"
    using run_cell_ok [of "cell34 ext" s9] c11(1) by (simp_all add: s10_def)
  have c9: "raised s8 = None" "s9 = cell29 ext s8"
    using run_cell_ok [of "cell29 ext" s8] c10(1) by (simp_all add: s9_def)
  have c8: "raised s7 = None" "s8 = cell28 ext s7"
    using run_cell_ok [of "cell28 ext" s7] c9(1) by (simp_all add: s8_def)
  have c7: "raised s6 = None" "s7 = cell24 ext s6"
    using run_cell_ok [of "cell24 ext" s6] c8(1) by (simp_all add: s7_def)
  have c6: "raised s5 = None" "s6 = cell22 ext s5"
    using run_cell_ok [of "cell22 ext" s5] c7(1) by (simp_all add: s6_def)
  have c5: "raised s4 = None" "s5 = cell20 ext s4"
    using run_cell_ok [of "cell20 ext" s4] c6(1) by (simp_all add: s5_def)
  have c4: "raised s3 = None" "s4 = cell15 ext s3"
    using run_cell_ok [of "cell15 ext" s3] c5(1) by (simp_all add: s4_def)
  have c3: "raised s2 = None" "s3 = cell14 ext s2"
    using run_cell_ok [of "cell14 ext" s2] c4(1) by (simp_all add: s3_def)
  have c2: "raised s1 = None" "s2 = cell11 ext s1"
    using run_cell_ok [of "cell11 ext" s1] c3(1) by (simp_all add: s2_def)
  have c1: "s1 = cell5 ext s0"
    using run_cell_ok [of "cell5 ext" s0] c2(1) by (simp add: s1_def)
  \<comment> \<open>cell 5 leaves files and objects alone\<close>
  have f1: "files s1 = fs" "heap s1 = Map.empty" "next_ref s1 = 0" "rollout_aoi s1 = None"
      "features s1 = None" "model s1 = None"
    using cell5_frame [of ext s0] by (simp_all add: c1 s0_def fresh_kernel_def)
  \<comment> \<open>cell 11\<close>
  from cell11_ok [of ext s1] c3(1) c2(2)
  obtain df where df: "files s1 (rollout_grids_path ext) = Some (GeoJSON df)" "well_formed df"
    and e2: "s2 = s1\<lparr>heap := (heap s1)(next_ref s1 \<mapsto> df), next_ref := Suc (next_ref s1),
                aoi := Some (next_ref s1)\<rparr>"
    by auto
  have f2: "files s2 = fs" "heap s2 = [0 \<mapsto> df]" "next_ref s2 = 1" "aoi s2 = Some 0"
      "rollout_aoi s2 = None" "model s2 = None"
    by (simp_all add: e2 f1)
  \<comment> \<open>cell 14\<close>
  from cell14_ok [of ext s2] c4(1) c3(2)
  obtain a df' f where a: "aoi s2 = Some a" "heap s2 a = Some df'"
    and gen: "generate_features (feature_defs ext) df' = Inr f"
    and e3: "s3 = s2\<lparr>heap := (heap s2)(next_ref s2 \<mapsto> df'), next_ref := Suc (next_ref s2),
                rollout_aoi := Some (next_ref s2), features := Some f\<rparr>"
    by auto
  have df': "df' = df" using a f2 by simp
  have f3: "files s3 = fs" "heap s3 = [0 \<mapsto> df, 1 \<mapsto> df]" "aoi s3 = Some 0"
      "rollout_aoi s3 = Some 1" "features s3 = Some f" "model s3 = None"
    by (simp_all add: e3 f2 df')
  \<comment> \<open>cell 15\<close>
  from cell15_ok [of ext s3] c5(1) c4(2)
  obtain f' where "features s3 = Some f'"
    and e4: "s4 = s3\<lparr>raw_features := Some (select_columns (\<lambda>col. \<not> contains ''_scaled'' col) f'),
                features := Some (select_columns (\<lambda>col. contains ''_scaled'' col) f')\<rparr>"
    by auto
  then have f': "f' = f" using f3 by simp
  have f4: "files s4 = fs" "heap s4 = [0 \<mapsto> df, 1 \<mapsto> df]" "aoi s4 = Some 0"
      "rollout_aoi s4 = Some 1"
      "features s4 = Some (select_columns (\<lambda>col. contains ''_scaled'' col) f)"
    by (simp_all add: e4 f3 f')
  \<comment> \<open>cell 20\<close>
  from cell20_ok [of ext s4] c6(1) c5(2)
  obtain m where m: "files s4 (MODEL_SAVE_PATH ext) = Some (Pickle m)"
    and e5: "s5 = s4\<lparr>model := Some m\<rparr>"
    by auto
  have f5: "files s5 = fs" "heap s5 = [0 \<mapsto> df, 1 \<mapsto> df]" "aoi s5 = Some 0"
      "rollout_aoi s5 = Some 1" "model s5 = Some m"
      "features s5 = Some (select_columns (\<lambda>col. contains ''_scaled'' col) f)"
    by (simp_all add: e5 f4)
  \<comment> \<open>cell 22\<close>
  from cell22_ok [of ext s5] c7(1) c6(2)
  obtain r rdf m' g ys where p: "rollout_aoi s5 = Some r" "heap s5 r = Some rdf"
      "model s5 = Some m'" "features s5 = Some g" "m' (values_of g) = Inr ys"
      "length ys = nrows rdf"
    and e6: "s6 = s5\<lparr>heap := (heap s5)(r \<mapsto>
                rdf\<lparr>cols := AList.update WEALTH_INDEX (map Num ys) (cols rdf)\<rparr>)\<rparr>"
    by auto
  have p': "r = 1" "rdf = df" "m' = m" "g = select_columns (\<lambda>col. contains ''_scaled'' col) f"
    using p f5 by simp_all
  let ?d1 = "df\<lparr>cols := AList.update WEALTH_INDEX (map Num ys) (cols df)\<rparr>"
  have f6: "files s6 = fs" "heap s6 = [0 \<mapsto> df, 1 \<mapsto> ?d1]" "aoi s6 = Some 0"
      "rollout_aoi s6 = Some 1"
      "features s6 = Some (select_columns (\<lambda>col. contains ''_scaled'' col) f)"
    by (simp_all add: e6 f5 p')
  \<comment> \<open>cell 24\<close>
  from cell24_ok [of ext s6] c8(1) c7(2)
  obtain r2 rdf2 col xs where q: "rollout_aoi s6 = Some r2" "heap s6 r2 = Some rdf2"
      "map_of (cols rdf2) WEALTH_INDEX = Some col" "the_nums col = Inr xs"
    and e7: "s7 = s6\<lparr>heap := (heap s6)(r2 \<mapsto> rdf2\<lparr>cols := AList.update WEALTH_CATEGORY
                (map Str (categorize_wealth_index xs)) (cols rdf2)\<rparr>)\<rparr>"
    by auto
  have q1: "r2 = 1" "rdf2 = ?d1" using q f6 by simp_all
  have "col = map Num ys" using q(3) by (simp add: q1 update_conv')
  then have xs: "xs = ys" using q(4) by (simp add: the_nums_Num)
  let ?d2 = "df\<lparr>cols := AList.update WEALTH_CATEGORY (map Str (categorize_wealth_index ys))
                            (AList.update WEALTH_INDEX (map Num ys) (cols df))\<rparr>"
  have f7: "files s7 = fs" "heap s7 = [0 \<mapsto> df, 1 \<mapsto> ?d2]" "aoi s7 = Some 0"
      "rollout_aoi s7 = Some 1"
      "features s7 = Some (select_columns (\<lambda>col. contains ''_scaled'' col) f)"
    by (simp_all add: e7 f6 q1 xs)
  \<comment> \<open>cell 28\<close>
  from cell28_ok [of ext s7] c9(1) c8(2)
  obtain r3 rdf3 where t: "rollout_aoi s7 = Some r3" "heap s7 r3 = Some rdf3"
    and e8: "s8 = s7\<lparr>files := (files s7)(rollout_output_path ext \<mapsto> GeoJSON rdf3)\<rparr>"
    by auto
  have t1: "rdf3 = ?d2" using t f7 by simp
  have f8: "files s8 (rollout_output_path ext) = Some (GeoJSON ?d2)"
      "heap s8 = [0 \<mapsto> df, 1 \<mapsto> ?d2]" "aoi s8 = Some 0" "rollout_aoi s8 = Some 1"
      "features s8 = Some (select_columns (\<lambda>col. contains ''_scaled'' col) f)"
    by (simp_all add: e8 f7 t1)
  \<comment> \<open>cells 29, 34, 36\<close>
  have f9: "files s9 (rollout_output_path ext) = Some (GeoJSON ?d2)"
      "heap s9 = [0 \<mapsto> df, 1 \<mapsto> ?d2]" "aoi s9 = Some 0" "rollout_aoi s9 = Some 1"
      "features s9 = Some (select_columns (\<lambda>col. contains ''_scaled'' col) f)"
    using cell29_frame [of ext s8] output_paths_distinct(1) [of ext]
    by (simp_all add: c9(2) f8)
  have f10: "files s10 (rollout_output_path ext) = Some (GeoJSON ?d2)"
      "heap s10 = [0 \<mapsto> df, 1 \<mapsto> ?d2]" "aoi s10 = Some 0" "rollout_aoi s10 = Some 1"
      "features s10 = Some (select_columns (\<lambda>col. contains ''_scaled'' col) f)"
    using plot_cell_frame [of WEALTH_INDEX "wealth_index_png ext" ext s9]
      output_paths_distinct(2) [of ext]
    by (simp_all add: c10(2) cell34_def f9)
  have f11: "files s11 (rollout_output_path ext) = Some (GeoJSON ?d2)"
      "heap s11 = [0 \<mapsto> df, 1 \<mapsto> ?d2]" "aoi s11 = Some 0" "rollout_aoi s11 = Some 1"
      "features s11 = Some (select_columns (\<lambda>col. contains ''_scaled'' col) f)"
    using plot_cell_frame [of WEALTH_CATEGORY "wealth_bin_png ext" ext s10]
      output_paths_distinct(3) [of ext]
    by (simp_all add: c11(2) cell36_def f10)
  have "fs (rollout_grids_path ext) = Some (GeoJSON df)" using df(1) f1 by simp
  moreover have "fs (MODEL_SAVE_PATH ext) = Some (Pickle m)" using m f4 by simp
  moreover have "m (values_of (select_columns (\<lambda>col. contains ''_scaled'' col) f)) = Inr ys"
    using p(5) p' by simp
  moreover have "length ys = nrows df" using p(6) p' by simp
  moreover have "generate_features (feature_defs ext) df = Inr f" using gen df' by simp
  ultimately show ?thesis
    unfolding final using df(2) f11 by (intro exI [of _ df] exI [of _ f] exI [of _ m] exI [of _ ys]) simp
qed

subsection \<open>Quintile binning\<close>

lemma quantile_linear_lower:
  assumes "sorted s" and "s \<noteq> []" and "k < m"
  shows "s ! (k * (length s - 1) div m) \<le> quantile_linear s k m"
proof -
  define n where "n = length s"
  define lo where "lo = k * (n - 1) div m"
  define hi where "hi = min (Suc lo) (n - 1)"
  define frac where "frac = real (k * (n - 1) mod m) / real m"
  have n: "0 < n" using assms(2) by (simp add: n_def)
  have m: "0 < m" using assms(3) by simp
  have "k * (n - 1) \<le> m * (n - 1)" using assms(3) by simp
  then have lo: "lo \<le> n - 1" unfolding lo_def
    by (metis div_le_mono m nonzero_mult_div_cancel_left less_numeral_extra(3))
  have hi: "lo \<le> hi" "hi < n" using lo n by (auto simp: hi_def)
  have d: "s ! lo \<le> s ! hi" using assms(1) hi by (simp add: sorted_iff_nth_mono n_def)
  have f: "0 \<le> frac" by (simp add: frac_def)
  have eq: "quantile_linear s k m = s ! lo + frac * (s ! hi - s ! lo)"
    by (simp add: quantile_linear_def Let_def n_def lo_def hi_def frac_def)
  have "0 \<le> frac * (s ! hi - s ! lo)" using d f by simp
  then show ?thesis unfolding eq by (simp add: lo_def n_def)
qed

lemma quantile_linear_upper:
  assumes "s ! (k * (length s - 1) div m) < s ! Suc (k * (length s - 1) div m)" and "k < m"
    and "Suc (k * (length s - 1) div m) < length s"
  shows "quantile_linear s k m < s ! Suc (k * (length s - 1) div m)"
proof -
  define n where "n = length s"
  define lo where "lo = k * (n - 1) div m"
  define frac where "frac = real (k * (n - 1) mod m) / real m"
  have lo: "Suc lo < n" using assms(3) by (simp add: n_def lo_def)
  then have hi: "min (Suc lo) (n - 1) = Suc lo" by simp
  have m: "0 < m" using assms(2) by simp
  have "k * (n - 1) mod m < m" using m by simp
  then have f: "frac < 1" "0 \<le> frac" using m by (simp_all add: frac_def)
  have d: "s ! lo < s ! Suc lo"
    using assms(1) by (simp add: n_def lo_def)
  have "frac * (s ! Suc lo - s ! lo) < 1 * (s ! Suc lo - s ! lo)"
    using f d by (intro mult_strict_right_mono) simp_all
  then have "s ! lo + frac * (s ! Suc lo - s ! lo) < s ! Suc lo" by simp
  moreover have "quantile_linear s k m = s ! lo + frac * (s ! min (Suc lo) (n - 1) - s ! lo)"
    by (simp add: quantile_linear_def Let_def n_def lo_def frac_def)
  ultimately show ?thesis unfolding hi by (simp add: lo_def n_def)
qed

lemma quantile_linear_less_nth:
  assumes "sorted s" and "k < m" and "i < length s"
    and step: "Suc (k * (length s - 1) div m) < length s \<Longrightarrow>
               s ! (k * (length s - 1) div m) < s ! Suc (k * (length s - 1) div m)"
  shows "quantile_linear s k m < s ! i \<longleftrightarrow> k * (length s - 1) div m < i"
proof
  assume less: "quantile_linear s k m < s ! i"
  show "k * (length s - 1) div m < i"
  proof (rule ccontr)
    assume "\<not> k * (length s - 1) div m < i"
    then have le: "i \<le> k * (length s - 1) div m" by simp
    have ne: "s \<noteq> []" using assms(3) by auto
    have "k * (length s - 1) \<le> m * (length s - 1)" using assms(2) by simp
    then have "k * (length s - 1) div m \<le> length s - 1"
      by (metis assms(2) div_le_mono nonzero_mult_div_cancel_left not_less_zero)
    then have lt: "k * (length s - 1) div m < length s" using assms(3) by simp
    have "s ! i \<le> s ! (k * (length s - 1) div m)"
      using assms(1) le lt by (simp add: sorted_iff_nth_mono)
    also have "\<dots> \<le> quantile_linear s k m"
      by (rule quantile_linear_lower [OF assms(1) ne assms(2)])
    finally show False using less by simp
  qed
next
  assume lo: "k * (length s - 1) div m < i"
  have lt: "Suc (k * (length s - 1) div m) < length s" using lo assms(3) by simp
  have "s ! Suc (k * (length s - 1) div m) \<le> s ! i"
    using assms(1) lo assms(3) by (simp add: sorted_iff_nth_mono)
  with quantile_linear_upper [OF step [OF lt] assms(2) lt]
  show "quantile_linear s k m < s ! i" by simp
qed

lemma length_filter_sort:
  "length (filter P (sort xs)) = length (filter P xs)"
proof -
  have "mset (filter P (sort xs)) = mset (filter P xs)" by (simp add: mset_filter)
  then have "size (mset (filter P (sort xs))) = size (mset (filter P xs))"
    by (rule arg_cong)
  then show ?thesis by (simp only: size_mset)
qed

lemma length_filter_nth:
  "length (filter P s) = length (filter (\<lambda>i. P (s ! i)) [0..<length s])"
proof -
  have "length (filter P (map ((!) s) [0..<length s])) =
        length (filter (\<lambda>i. P (s ! i)) [0..<length s])"
    by (simp add: comp_def)
  then show ?thesis by (simp add: map_nth)
qed

lemma no_tie_at_edges_step:
  assumes "no_tie_at_edges xs" and "k \<in> {1, 2, 3, 4}"
    and "Suc (k * (length (sort xs) - 1) div 5) < length (sort xs)"
  shows "sort xs ! (k * (length (sort xs) - 1) div 5)
         < sort xs ! Suc (k * (length (sort xs) - 1) div 5)"
  using assms by (auto simp: no_tie_at_edges_def Let_def)

lemma distinct_no_tie: "distinct xs \<Longrightarrow> no_tie_at_edges xs"
proof -
  assume "distinct xs"
  then have "sorted_wrt (<) (sort xs)" by (simp add: strict_sorted_iff)
  then have "\<And>j. Suc j < length xs \<Longrightarrow> sort xs ! j < sort xs ! Suc j"
    by (simp add: sorted_wrt_iff_nth_less)
  then show ?thesis by (simp add: no_tie_at_edges_def Let_def)
qed

lemma bin_of_nth:
  assumes "no_tie_at_edges xs" and "i < length xs"
  shows "bin_of (quintile_edges xs) (sort xs ! i) = quintile_rank (length xs) i"
proof -
  have sorted: "sorted (sort xs)" by simp
  have i: "i < length (sort xs)" using assms(2) by simp
  have ne: "xs \<noteq> []" using assms(2) by auto
  have e: "(quantile_linear (sort xs) k 5 < sort xs ! i) = (k * (length xs - 1) div 5 < i)"
    if "k \<in> {1, 2, 3, 4}" for k
  proof -
    have k: "k < 5" using that by auto
    show ?thesis
      using quantile_linear_less_nth [OF sorted k i no_tie_at_edges_step [OF assms(1) that]]
      by simp
  qed
  show ?thesis
    using ne by (simp add: bin_of_def quintile_edges_def quintile_rank_def e)
qed

lemma quintile_rank_le: "quintile_rank n i \<le> 4"
proof -
  have "quintile_rank n i \<le> length [1, 2, 3, 4 :: nat]"
    unfolding quintile_rank_def by (rule length_filter_le)
  then show ?thesis by simp
qed

lemma labels_nth_eq:
  assumes "a \<le> 4" and "b \<le> 4"
  shows "labels ! a = labels ! b \<longleftrightarrow> a = b"
proof -
  have d: "distinct labels" by (simp add: labels_def)
  have "a < length labels" "b < length labels" using assms by (simp_all add: labels_def)
  then show ?thesis using d by (simp add: nth_eq_iff_index_eq)
qed

lemma count_categorize:
  assumes "no_tie_at_edges xs" and "j \<le> 4"
  shows "count_list (categorize_wealth_index xs) (labels ! j) =
         card {i. i < length xs \<and> quintile_rank (length xs) i = j}"
proof -
  let ?P = "\<lambda>x. labels ! j = labels ! bin_of (quintile_edges xs) x"
  have "count_list (categorize_wealth_index xs) (labels ! j) = length (filter ?P xs)"
    by (simp add: categorize_wealth_index_def count_list_eq_length_filter comp_def)
  also have "\<dots> = length (filter ?P (sort xs))" by (simp add: length_filter_sort)
  also have "\<dots> = length (filter (\<lambda>i. ?P (sort xs ! i)) [0..<length xs])"
    using length_filter_nth [of ?P "sort xs"] by simp
  also have "\<dots> = length (filter (\<lambda>i. quintile_rank (length xs) i = j) [0..<length xs])"
  proof -
    have "\<And>i. i \<in> set [0..<length xs] \<Longrightarrow>
        ?P (sort xs ! i) = (quintile_rank (length xs) i = j)"
      using assms by (auto simp: bin_of_nth labels_nth_eq quintile_rank_le)
    then have "filter (\<lambda>i. ?P (sort xs ! i)) [0..<length xs] =
        filter (\<lambda>i. quintile_rank (length xs) i = j) [0..<length xs]"
      by (intro filter_cong) simp_all
    then show ?thesis by simp
  qed
  also have "\<dots> = card {i. i < length xs \<and> quintile_rank (length xs) i = j}"
  proof -
    have "{i. quintile_rank (length xs) i = j} \<inter> set [0..<length xs] =
          {i. i < length xs \<and> quintile_rank (length xs) i = j}" by auto
    then show ?thesis by (simp add: distinct_length_filter)
  qed
  finally show ?thesis .
qed


lemma length_filter_four:
  "length (filter (\<lambda>k. f k < i) [1, 2, 3, 4 :: nat]) =
     (if f 1 < i then 1 else 0) + (if f 2 < i then 1 else 0)
     + (if f 3 < i then 1 else 0) + (if f 4 < (i::nat) then 1 else 0)"
  by simp

lemma quintile_bins:
  assumes "0 < n"
  shows "{i. i < n \<and> quintile_rank n i = 0} = {..1 * (n - 1) div 5}"
    and "{i. i < n \<and> quintile_rank n i = 1} = {1 * (n - 1) div 5 <.. 2 * (n - 1) div 5}"
    and "{i. i < n \<and> quintile_rank n i = 2} = {2 * (n - 1) div 5 <.. 3 * (n - 1) div 5}"
    and "{i. i < n \<and> quintile_rank n i = 3} = {3 * (n - 1) div 5 <.. 4 * (n - 1) div 5}"
    and "{i. i < n \<and> quintile_rank n i = 4} = {4 * (n - 1) div 5 <..< n}"
proof -
  define a where "a k = k * (n - 1) div 5" for k
  have "a 1 \<le> a 2 \<and> a 2 \<le> a 3 \<and> a 3 \<le> a 4 \<and> a 4 < n"
    using assms unfolding a_def by arith
  then have ord: "a 1 \<le> a 2" "a 2 \<le> a 3" "a 3 \<le> a 4" "a 4 < n" by simp_all
  have "\<And>i. quintile_rank n i = length (filter (\<lambda>k. a k < i) [1, 2, 3, 4])"
    unfolding quintile_rank_def a_def by (rule refl)
  then have r: "\<And>i. quintile_rank n i =
     (if a 1 < i then 1 else 0) + (if a 2 < i then 1 else 0)
     + (if a 3 < i then 1 else 0) + (if a 4 < i then 1 else 0)"
    by (simp only: length_filter_four)
  have "{i. i < n \<and> quintile_rank n i = 0} = {..a 1}"
    using ord by (auto simp: r split: if_splits)
  then show "{i. i < n \<and> quintile_rank n i = 0} = {..1 * (n - 1) div 5}"
    by (simp only: a_def)
  have "{i. i < n \<and> quintile_rank n i = 1} = {a 1 <.. a 2}"
    using ord by (auto simp: r split: if_splits)
  then show "{i. i < n \<and> quintile_rank n i = 1} = {1 * (n - 1) div 5 <.. 2 * (n - 1) div 5}"
    by (simp only: a_def)
  have "{i. i < n \<and> quintile_rank n i = 2} = {a 2 <.. a 3}"
    using ord by (auto simp: r split: if_splits)
  then show "{i. i < n \<and> quintile_rank n i = 2} = {2 * (n - 1) div 5 <.. 3 * (n - 1) div 5}"
    by (simp only: a_def)
  have "{i. i < n \<and> quintile_rank n i = 3} = {a 3 <.. a 4}"
    using ord by (auto simp: r split: if_splits)
  then show "{i. i < n \<and> quintile_rank n i = 3} = {3 * (n - 1) div 5 <.. 4 * (n - 1) div 5}"
    by (simp only: a_def)
  have "{i. i < n \<and> quintile_rank n i = 4} = {a 4 <..< n}"
    using ord by (auto simp: r split: if_splits)
  then show "{i. i < n \<and> quintile_rank n i = 4} = {4 * (n - 1) div 5 <..< n}"
    by (simp only: a_def)
qed

lemma mult_div5: "k * (5 * q + r) div 5 = k * q + k * r div (5::nat)"
proof -
  have "k * (5 * q + r) = k * r + (k * q) * 5" by (simp add: algebra_simps)
  then show ?thesis by (simp only: div_mult_self1)
qed

lemma quintile_sizes:
  fixes m :: nat
  shows "5 * Suc (1 * m div 5) < Suc m + 5 \<and> Suc m < 5 * Suc (1 * m div 5) + 5"
    and "5 * (2 * m div 5 - 1 * m div 5) < Suc m + 5 \<and> Suc m < 5 * (2 * m div 5 - 1 * m div 5) + 5"
    and "5 * (3 * m div 5 - 2 * m div 5) < Suc m + 5 \<and> Suc m < 5 * (3 * m div 5 - 2 * m div 5) + 5"
    and "5 * (4 * m div 5 - 3 * m div 5) < Suc m + 5 \<and> Suc m < 5 * (4 * m div 5 - 3 * m div 5) + 5"
    and "5 * (Suc m - Suc (4 * m div 5)) < Suc m + 5 \<and> Suc m < 5 * (Suc m - Suc (4 * m div 5)) + 5"
proof -
  define q where "q = m div 5"
  define r where "r = m mod 5"
  have m: "m = 5 * q + r" by (simp add: q_def r_def)
  have "r < 5" by (simp add: r_def)
  then consider "r = 0" | "r = 1" | "r = 2" | "r = 3" | "r = 4" by arith
  note cases = this
  show "5 * Suc (1 * m div 5) < Suc m + 5 \<and> Suc m < 5 * Suc (1 * m div 5) + 5"
    unfolding m mult_div5 by (rule cases) simp_all
  show "5 * (2 * m div 5 - 1 * m div 5) < Suc m + 5 \<and> Suc m < 5 * (2 * m div 5 - 1 * m div 5) + 5"
    unfolding m mult_div5 by (rule cases) simp_all
  show "5 * (3 * m div 5 - 2 * m div 5) < Suc m + 5 \<and> Suc m < 5 * (3 * m div 5 - 2 * m div 5) + 5"
    unfolding m mult_div5 by (rule cases) simp_all
  show "5 * (4 * m div 5 - 3 * m div 5) < Suc m + 5 \<and> Suc m < 5 * (4 * m div 5 - 3 * m div 5) + 5"
    unfolding m mult_div5 by (rule cases) simp_all
  show "5 * (Suc m - Suc (4 * m div 5)) < Suc m + 5 \<and> Suc m < 5 * (Suc m - Suc (4 * m div 5)) + 5"
    unfolding m mult_div5 by (rule cases) simp_all
qed

lemma quintile_bin_size:
  assumes "j \<le> 4"
  shows "5 * card {i. i < n \<and> quintile_rank n i = j} < n + 5
       \<and> n < 5 * card {i. i < n \<and> quintile_rank n i = j} + 5"
proof (cases n)
  case 0
  then show ?thesis by simp
next
  case (Suc m)
  then have n: "0 < n" and m: "n - 1 = m" by simp_all
  from assms consider "j = 0" | "j = 1" | "j = 2" | "j = 3" | "j = 4" by arith
  then show ?thesis
  proof cases
    case 1
    have "card {i. i < n \<and> quintile_rank n i = j} = Suc (1 * m div 5)"
      unfolding 1 quintile_bins(1) [OF n] m by simp
    then show ?thesis using quintile_sizes(1) [of m] Suc by simp
  next
    case 2
    have "card {i. i < n \<and> quintile_rank n i = j} = 2 * m div 5 - 1 * m div 5"
      unfolding 2 quintile_bins(2) [OF n] m by simp
    then show ?thesis using quintile_sizes(2) [of m] Suc by simp
  next
    case 3
    have "card {i. i < n \<and> quintile_rank n i = j} = 3 * m div 5 - 2 * m div 5"
      unfolding 3 quintile_bins(3) [OF n] m by simp
    then show ?thesis using quintile_sizes(3) [of m] Suc by simp
  next
    case 4
    have "card {i. i < n \<and> quintile_rank n i = j} = 4 * m div 5 - 3 * m div 5"
      unfolding 4 quintile_bins(4) [OF n] m by simp
    then show ?thesis using quintile_sizes(4) [of m] Suc by simp
  next
    case 5
    have "{i. i < n \<and> quintile_rank n i = j} = {4 * m div 5 <..< Suc m}"
      using quintile_bins(5) [OF n] m Suc 5 by simp
    then have "card {i. i < n \<and> quintile_rank n i = j} = Suc m - Suc (4 * m div 5)"
      by simp
    then show ?thesis using quintile_sizes(5) [of m] Suc by simp
  qed
qed

lemma categorize_label: "set (categorize_wealth_index xs) \<subseteq> set labels"
proof -
  have "\<And>x. bin_of (quintile_edges xs) x < length labels"
  proof -
    fix x
    have "bin_of (quintile_edges xs) x \<le> length (quintile_edges xs)"
      unfolding bin_of_def by (rule length_filter_le)
    also have "\<dots> \<le> 4" by (simp add: quintile_edges_def)
    finally show "bin_of (quintile_edges xs) x < length labels" by (simp add: labels_def)
  qed
  then show ?thesis by (auto simp: categorize_wealth_index_def)
qed

text \<open>
  C2. Binning gives every row exactly one of the five labels A to E: the result has one
  label per score and every label is one of the five. When no scores are tied at a
  quintile edge (in particular when no two scores are equal), every label is given to
  about a fifth of the rows: the size of each bin is less than one row away from a fifth
  of the number of rows, and is exactly a fifth when that number is a multiple of five.
\<close>

theorem quintile_bins_equal_frequency:
  "length (categorize_wealth_index xs) = length xs
   \<and> set (categorize_wealth_index xs) \<subseteq> set labels
   \<and> (distinct xs \<longrightarrow> no_tie_at_edges xs)
   \<and> (no_tie_at_edges xs \<longrightarrow>
        (\<forall>l \<in> set labels.
           5 * count_list (categorize_wealth_index xs) l < length xs + 5
           \<and> length xs < 5 * count_list (categorize_wealth_index xs) l + 5
           \<and> (5 dvd length xs \<longrightarrow>
                5 * count_list (categorize_wealth_index xs) l = length xs)))"
proof (intro conjI impI ballI)
  show "length (categorize_wealth_index xs) = length xs"
    by (simp add: categorize_wealth_index_def)
  show "set (categorize_wealth_index xs) \<subseteq> set labels"
    by (rule categorize_label)
  show "no_tie_at_edges xs" if "distinct xs"
    using that by (rule distinct_no_tie)
next
  fix l
  assume d: "no_tie_at_edges xs" and l: "l \<in> set labels"
  from l obtain j where "j < length labels" and lj: "l = labels ! j"
    by (auto simp: in_set_conv_nth)
  then have j: "j \<le> 4" by (simp add: labels_def)
  have c: "count_list (categorize_wealth_index xs) l =
           card {i. i < length xs \<and> quintile_rank (length xs) i = j}"
    unfolding lj by (rule count_categorize [OF d j])
  show lo: "5 * count_list (categorize_wealth_index xs) l < length xs + 5"
    unfolding c using quintile_bin_size [OF j] by simp
  show hi: "length xs < 5 * count_list (categorize_wealth_index xs) l + 5"
    unfolding c using quintile_bin_size [OF j] by simp
  assume "5 dvd length xs"
  then obtain q where "length xs = 5 * q" by (auto simp: dvd_def)
  with lo hi show "5 * count_list (categorize_wealth_index xs) l = length xs"
    by simp
qed

theorem quintile_bins_equal_frequency_witness:
  "no_tie_at_edges [0.3, 0.1, 0.3, 0.2, 0.4, 0.5, 0.6, 0.7, 0.8, 0.9]
   \<and> \<not> distinct [0.3, 0.1, 0.3, 0.2, 0.4, 0.5, 0.6, 0.7, 0.8, 0.9 :: real]
   \<and> categorize_wealth_index [0.3, 0.1, 0.3, 0.2, 0.4, 0.5, 0.6, 0.7, 0.8, 0.9]
       = [''D'', ''E'', ''D'', ''E'', ''C'', ''C'', ''B'', ''B'', ''A'', ''A'']
   \<and> 5 dvd length [0.3, 0.1, 0.3, 0.2, 0.4, 0.5, 0.6, 0.7, 0.8, 0.9 :: real]
   \<and> list_all (\<lambda>l. 5 * count_list
         (categorize_wealth_index [0.3, 0.1, 0.3, 0.2, 0.4, 0.5, 0.6, 0.7, 0.8, 0.9]) l = 10)
        labels"
proof -
  let ?xs = "[0.3, 0.1, 0.3, 0.2, 0.4, 0.5, 0.6, 0.7, 0.8, 0.9 :: real]"
  have t: "no_tie_at_edges ?xs" by code_simp
  have d: "\<not> distinct ?xs" by simp
  have v: "categorize_wealth_index ?xs
       = [''D'', ''E'', ''D'', ''E'', ''C'', ''C'', ''B'', ''B'', ''A'', ''A'']"
    by code_simp
  have len: "length ?xs = 10" by simp
  have n: "5 dvd length ?xs" unfolding len by simp
  from quintile_bins_equal_frequency [of ?xs] t n
  have "\<forall>l \<in> set labels. 5 * count_list (categorize_wealth_index ?xs) l = length ?xs"
    by blast
  then have "list_all (\<lambda>l. 5 * count_list (categorize_wealth_index ?xs) l = 10) labels"
    unfolding len by (simp only: list_all_iff)
  with t d v n show ?thesis by blast
qed

subsection \<open>Scaled features\<close>


lemma run_cells_take_split:
  assumes "j \<le> k"
  shows "run_cells (take k cs) s = run_cells (take (k - j) (drop j cs)) (run_cells (take j cs) s)"
proof -
  have "take k cs = take j cs @ take (k - j) (drop j cs)"
    using assms by (metis le_add_diff_inverse take_add)
  then show ?thesis by (simp add: run_cells_append)
qed





subsection \<open>Row counts and exported columns\<close>

lemma update_set_subset: "set (AList.update k v al) \<subseteq> insert (k, v) (set al)"
  by (induction al) auto

lemma update_fresh: "k \<notin> fst ` set al \<Longrightarrow> AList.update k v al = al @ [(k, v)]"
  by (induction al) auto

lemma wealth_columns_distinct: "WEALTH_INDEX \<noteq> WEALTH_CATEGORY"
  by (simp add: WEALTH_INDEX_def WEALTH_CATEGORY_def)

lemma well_formed_lengths:
  "well_formed df \<Longrightarrow> c \<in> set (cols df) \<Longrightarrow> length (snd c) = nrows df"
  by (simp add: well_formed_def list_all_iff)

lemma annotated_lengths:
  assumes "well_formed df" and "length ys = nrows df"
    and "c \<in> set (AList.update WEALTH_CATEGORY (map Str (categorize_wealth_index ys))
                    (AList.update WEALTH_INDEX (map Num ys) (cols df)))"
  shows "length (snd c) = nrows df"
proof -
  from assms(3) update_set_subset
  have "c = (WEALTH_CATEGORY, map Str (categorize_wealth_index ys))
        \<or> c \<in> set (AList.update WEALTH_INDEX (map Num ys) (cols df))"
    by fastforce
  then have "c = (WEALTH_CATEGORY, map Str (categorize_wealth_index ys))
        \<or> c = (WEALTH_INDEX, map Num ys) \<or> c \<in> set (cols df)"
    using update_set_subset [of WEALTH_INDEX "map Num ys" "cols df"] by auto
  then show ?thesis
    using assms(1,2) well_formed_lengths [of df c]
    by (auto simp: categorize_wealth_index_def)
qed

text \<open>
  C3. In a run of the whole notebook that raises nothing, on a grid file of \<open>n\<close> rows:
  the frame returned by feature generation has \<open>n\<close> rows (an index of \<open>n\<close> and every
  column of length \<open>n\<close>), and so has the frame of scaled features kept in \<open>features\<close>; the
  frame \<open>rollout_aoi\<close> after prediction and binning has \<open>n\<close> rows; and the exported
  GeoJSON has \<open>n\<close> rows.
\<close>

theorem row_count_preserved:
  assumes "raised (run_cells (cells ext) (fresh_kernel env lines fs w)) = None"
    and "fs (rollout_grids_path ext) = Some (GeoJSON df)"
    and "nrows df = n"
  shows "(\<exists>f. generate_features (feature_defs ext) df = Inr f \<and> nrows f = n
            \<and> (\<forall>c \<in> set (cols f). length (snd c) = n)
            \<and> (\<exists>g. features (run_cells (cells ext) (fresh_kernel env lines fs w)) = Some g
                  \<and> nrows g = n \<and> (\<forall>c \<in> set (cols g). length (snd c) = n)))
       \<and> (\<exists>r out. rollout_aoi (run_cells (cells ext) (fresh_kernel env lines fs w)) = Some r
            \<and> heap (run_cells (cells ext) (fresh_kernel env lines fs w)) r = Some out
            \<and> WEALTH_INDEX \<in> set (columns out) \<and> WEALTH_CATEGORY \<in> set (columns out)
            \<and> nrows out = n \<and> (\<forall>c \<in> set (cols out). length (snd c) = n))
       \<and> (\<exists>out. files (run_cells (cells ext) (fresh_kernel env lines fs w))
                    (rollout_output_path ext) = Some (GeoJSON out)
            \<and> nrows out = n \<and> (\<forall>c \<in> set (cols out). length (snd c) = n))"
proof -
  let ?final = "run_cells (cells ext) (fresh_kernel env lines fs w)"
  from run_succeeds [OF assms(1)]
  obtain df' f m ys where grid: "fs (rollout_grids_path ext) = Some (GeoJSON df')"
    and wf: "well_formed df'"
    and gen: "generate_features (feature_defs ext) df' = Inr f"
    and len: "length ys = nrows df'"
    and ro: "rollout_aoi ?final = Some 1"
    and h1: "heap ?final 1 =
         Some (df'\<lparr>cols := AList.update WEALTH_CATEGORY (map Str (categorize_wealth_index ys))
                            (AList.update WEALTH_INDEX (map Num ys) (cols df'))\<rparr>)"
    and fe: "features ?final = Some (select_columns (\<lambda>col. contains ''_scaled'' col) f)"
    and out: "files ?final (rollout_output_path ext) =
         Some (GeoJSON (df'\<lparr>cols := AList.update WEALTH_CATEGORY (map Str (categorize_wealth_index ys))
                            (AList.update WEALTH_INDEX (map Num ys) (cols df'))\<rparr>))"
    by blast
  have same: "df' = df" using grid assms(2) by simp
  let ?out = "df\<lparr>cols := AList.update WEALTH_CATEGORY (map Str (categorize_wealth_index ys))
                            (AList.update WEALTH_INDEX (map Num ys) (cols df))\<rparr>"
  have o1: "nrows ?out = n" using assms(3) by simp
  have o2: "\<forall>c \<in> set (cols ?out). length (snd c) = n"
    using annotated_lengths [of df ys] wf len assms(3) by (simp add: same)
  have o3: "WEALTH_INDEX \<in> set (columns ?out)" "WEALTH_CATEGORY \<in> set (columns ?out)"
    by (simp_all add: columns_def update_keys)
  have g1: "nrows f = n" using generate_features_cols(1) [OF gen] assms(3) by (simp add: same)
  have g2: "\<forall>c \<in> set (cols f). length (snd c) = n"
    using generate_features_cols(2) [OF gen] assms(3) by (simp add: same)
  have g3: "nrows (select_columns (\<lambda>col. contains ''_scaled'' col) f) = n"
    using g1 by (simp add: select_columns_def)
  have g4: "\<forall>c \<in> set (cols (select_columns (\<lambda>col. contains ''_scaled'' col) f)). length (snd c) = n"
    using g2 by (simp add: select_columns_def)
  have A: "\<exists>f. generate_features (feature_defs ext) df = Inr f \<and> nrows f = n
            \<and> (\<forall>c \<in> set (cols f). length (snd c) = n)
            \<and> (\<exists>g. features ?final = Some g
                  \<and> nrows g = n \<and> (\<forall>c \<in> set (cols g). length (snd c) = n))"
    using gen g1 g2 g3 g4 fe same by blast
  have B: "\<exists>r out. rollout_aoi ?final = Some r \<and> heap ?final r = Some out
            \<and> WEALTH_INDEX \<in> set (columns out) \<and> WEALTH_CATEGORY \<in> set (columns out)
            \<and> nrows out = n \<and> (\<forall>c \<in> set (cols out). length (snd c) = n)"
    using ro h1 o1 o2 o3 unfolding same by blast
  have C: "\<exists>out. files ?final (rollout_output_path ext) = Some (GeoJSON out)
            \<and> nrows out = n \<and> (\<forall>c \<in> set (cols out). length (snd c) = n)"
    using out o1 o2 unfolding same by blast
  from A B C show ?thesis by blast
qed

lemma example_kernel_fresh:
  "example_kernel m =
     fresh_kernel [''EOG_USER'' \<mapsto> ''ann''] [''s3cret'']
       [''2023-02-21-my-rollout-grids.geojson'' \<mapsto> GeoJSON example_grid,
        ''../2023-02-21-cross-country-model.pkl'' \<mapsto> Pickle m]
       (\<lambda>path. True)"
  by (simp add: example_kernel_def)

lemma example_grid_file:
  "[''2023-02-21-my-rollout-grids.geojson'' \<mapsto> GeoJSON example_grid,
    ''../2023-02-21-cross-country-model.pkl'' \<mapsto> Pickle m]
     (rollout_grids_path example_externals) = Some (GeoJSON example_grid)"
  by (simp add: rollout_grids_path_def example_externals_def COUNTRY_CODE_def)

lemma example_run_ok:
  "raised (run_cells (cells example_externals) (example_kernel halving_model)) = None"
  by code_simp

theorem row_count_preserved_witness:
  "raised (run_cells (cells example_externals) (example_kernel halving_model)) = None
   \<and> nrows example_grid = 2
   \<and> (\<exists>out. files (run_cells (cells example_externals) (example_kernel halving_model))
                (rollout_output_path example_externals) = Some (GeoJSON out)
          \<and> nrows out = 2 \<and> list_all (\<lambda>c. length (snd c) = 2) (cols out))"
proof -
  have h1: "raised (run_cells (cells example_externals) (example_kernel halving_model)) = None"
    by (rule example_run_ok)
  have h3: "nrows example_grid = 2" by (simp add: example_grid_def)
  from row_count_preserved [OF h1 [unfolded example_kernel_fresh] example_grid_file h3]
  have "\<exists>out. files (run_cells (cells example_externals) (example_kernel halving_model))
                (rollout_output_path example_externals) = Some (GeoJSON out)
          \<and> nrows out = 2 \<and> list_all (\<lambda>c. length (snd c) = 2) (cols out)"
    unfolding example_kernel_fresh list_all_iff by blast
  with h1 h3 show ?thesis by blast
qed

text \<open>
  C5. In a run of the whole notebook that raises nothing, on a grid file with the eight
  columns quadkey, shapeName, shapeISO, shapeID, shapeGroup, shapeType, pop_count and
  geometry: the first exported GeoJSON holds those eight columns, in order and with the
  values of the grid file, followed by the wealth index (the model's predictions) and the
  wealth category (their bins), and nothing else.
\<close>

theorem export_adds_two_columns:
  assumes "raised (run_cells (cells ext) (fresh_kernel env lines fs w)) = None"
    and "fs (rollout_grids_path ext) = Some (GeoJSON df)"
    and "columns df = grid_columns"
  shows "\<exists>ys out. files (run_cells (cells ext) (fresh_kernel env lines fs w))
                     (rollout_output_path ext) = Some (GeoJSON out)
           \<and> nrows out = nrows df
           \<and> cols out = cols df @ [(WEALTH_INDEX, map Num ys),
                                   (WEALTH_CATEGORY, map Str (categorize_wealth_index ys))]
           \<and> columns out = grid_columns @ [WEALTH_INDEX, WEALTH_CATEGORY]"
proof -
  let ?final = "run_cells (cells ext) (fresh_kernel env lines fs w)"
  from run_succeeds [OF assms(1)]
  obtain df' ys where grid: "fs (rollout_grids_path ext) = Some (GeoJSON df')"
    and out: "files ?final (rollout_output_path ext) =
         Some (GeoJSON (df'\<lparr>cols := AList.update WEALTH_CATEGORY (map Str (categorize_wealth_index ys))
                            (AList.update WEALTH_INDEX (map Num ys) (cols df'))\<rparr>))"
    by blast
  have same: "df' = df" using grid assms(2) by simp
  have keys: "fst ` set (cols df) = set grid_columns"
    using assms(3) by (simp add: columns_def [symmetric] flip: set_map)
  have n1: "WEALTH_INDEX \<notin> fst ` set (cols df)"
    unfolding keys by (simp add: grid_columns_def WEALTH_INDEX_def)
  have u1: "AList.update WEALTH_INDEX (map Num ys) (cols df) = cols df @ [(WEALTH_INDEX, map Num ys)]"
    using n1 by (rule update_fresh)
  have n2: "WEALTH_CATEGORY \<notin> fst ` set (cols df @ [(WEALTH_INDEX, map Num ys)])"
    using keys wealth_columns_distinct
    by (simp add: grid_columns_def WEALTH_CATEGORY_def WEALTH_INDEX_def)
  have u2: "AList.update WEALTH_CATEGORY (map Str (categorize_wealth_index ys))
              (AList.update WEALTH_INDEX (map Num ys) (cols df))
            = cols df @ [(WEALTH_INDEX, map Num ys),
                         (WEALTH_CATEGORY, map Str (categorize_wealth_index ys))]"
    unfolding u1 using update_fresh [OF n2] by simp
  let ?out = "df\<lparr>cols := cols df @ [(WEALTH_INDEX, map Num ys),
                         (WEALTH_CATEGORY, map Str (categorize_wealth_index ys))]\<rparr>"
  have "files ?final (rollout_output_path ext) = Some (GeoJSON ?out)"
    using out unfolding same u2 .
  moreover have "nrows ?out = nrows df" by simp
  moreover have "cols ?out = cols df @ [(WEALTH_INDEX, map Num ys),
                         (WEALTH_CATEGORY, map Str (categorize_wealth_index ys))]" by simp
  moreover have "columns ?out = grid_columns @ [WEALTH_INDEX, WEALTH_CATEGORY]"
    using assms(3) by (simp add: columns_def)
  ultimately show ?thesis by blast
qed


theorem export_adds_two_columns_witness:
  "raised (run_cells (cells example_externals) (example_kernel halving_model)) = None
   \<and> columns example_grid = grid_columns
   \<and> (\<exists>out. files (run_cells (cells example_externals) (example_kernel halving_model))
                (rollout_output_path example_externals) = Some (GeoJSON out)
          \<and> columns out = grid_columns @ [WEALTH_INDEX, WEALTH_CATEGORY])"
proof -
  have h1: "raised (run_cells (cells example_externals) (example_kernel halving_model)) = None"
    by (rule example_run_ok)
  have h3: "columns example_grid = grid_columns"
    by (simp add: example_grid_def columns_def grid_columns_def)
  from export_adds_two_columns [OF h1 [unfolded example_kernel_fresh] example_grid_file h3]
  have "\<exists>out. files (run_cells (cells example_externals) (example_kernel halving_model))
                (rollout_output_path example_externals) = Some (GeoJSON out)
          \<and> columns out = grid_columns @ [WEALTH_INDEX, WEALTH_CATEGORY]"
    unfolding example_kernel_fresh by blast
  with h1 h3 show ?thesis by blast
qed

subsection \<open>The wealth index and its bins\<close>




lemma deref_raise: "deref name (rollout_aoi (raise e s)) (raise e s) = deref name (rollout_aoi s) s"
  by (simp add: deref_def raise_def split: option.split)

lemma raise_raise: "raise e (raise e s) = raise e s"
  by (simp add: raise_def)

lemma cell24_twice: "cell24 ext (cell24 ext s) = cell24 ext s"
proof (cases "deref ''rollout_aoi'' (rollout_aoi s) s")
  case (Inl e)
  then have "cell24 ext s = raise e s" by (simp add: cell24_def)
  moreover have "cell24 ext (raise e s) = raise e (raise e s)"
    using Inl by (simp add: cell24_def deref_raise)
  ultimately show ?thesis by (simp add: raise_raise)
next
  case (Inr p)
  obtain r df where p: "p = (r, df)" by (cases p)
  note d = Inr [unfolded p]
  show ?thesis
  proof (cases "getitem WEALTH_INDEX df")
    case (Inl e)
    then have "cell24 ext s = raise e s" using d by (simp add: cell24_def)
    moreover have "cell24 ext (raise e s) = raise e (raise e s)"
      using Inl d by (simp add: cell24_def deref_raise)
    ultimately show ?thesis by (simp add: raise_raise)
  next
    case (Inr col)
    note g = this
    show ?thesis
    proof (cases "the_nums col")
      case (Inl e)
      then have "cell24 ext s = raise e s" using d g by (simp add: cell24_def)
      moreover have "cell24 ext (raise e s) = raise e (raise e s)"
        using Inl d g by (simp add: cell24_def deref_raise)
      ultimately show ?thesis by (simp add: raise_raise)
    next
      case (Inr xs)
      note n = this
      show ?thesis
      proof (cases "setitem WEALTH_CATEGORY (map Str (categorize_wealth_index xs)) df")
        case (Inl e)
        then have "cell24 ext s = raise e s" using d g n by (simp add: cell24_def)
        moreover have "cell24 ext (raise e s) = raise e (raise e s)"
          using Inl d g n by (simp add: cell24_def deref_raise)
        ultimately show ?thesis by (simp add: raise_raise)
      next
        case (Inr df')
        have one: "cell24 ext s = s\<lparr>heap := (heap s)(r \<mapsto> df')\<rparr>"
          using d g n Inr by (simp add: cell24_def)
        have len: "length (categorize_wealth_index xs) = nrows df"
          and df': "df' = df\<lparr>cols := AList.update WEALTH_CATEGORY
                     (map Str (categorize_wealth_index xs)) (cols df)\<rparr>"
          using Inr by (auto simp: setitem_def split: if_splits)
        have ro: "rollout_aoi s = Some r" using d by (simp add: deref_Inr)
        have d2: "deref ''rollout_aoi'' (rollout_aoi (s\<lparr>heap := (heap s)(r \<mapsto> df')\<rparr>))
                    (s\<lparr>heap := (heap s)(r \<mapsto> df')\<rparr>) = Inr (r, df')"
          using ro by (simp add: deref_def)
        have g2: "getitem WEALTH_INDEX df' = Inr col"
          using g wealth_columns_distinct by (simp add: df' getitem_def update_conv')
        have s2: "setitem WEALTH_CATEGORY (map Str (categorize_wealth_index xs)) df' = Inr df'"
          using len by (simp add: df' setitem_def)
        have two: "cell24 ext (s\<lparr>heap := (heap s)(r \<mapsto> df')\<rparr>) = s\<lparr>heap := (heap s)(r \<mapsto> df')\<rparr>"
          unfolding cell24_def d2 using g2 n s2 by simp
        show ?thesis unfolding one two ..
      qed
    qed
  qed
qed

lemma wealth_scores_cell24: "wealth_scores (cell24 ext s) = wealth_scores s"
  using wealth_columns_distinct
  by (auto simp: wealth_scores_def rollout_aoi_getitem_def cell24_def deref_def getitem_def
      setitem_def raise_def update_conv' split: option.splits sum.splits if_splits)

lemma cell24_category:
  assumes "wealth_scores s = Inr xs" and "raised (cell24 ext s) = None"
  shows "rollout_aoi_getitem WEALTH_CATEGORY (cell24 ext s)
         = Inr (map Str (categorize_wealth_index xs))"
proof -
  from cell24_ok [OF assms(2)]
  obtain r df col ys where a: "rollout_aoi s = Some r" "heap s r = Some df"
      "map_of (cols df) WEALTH_INDEX = Some col" "the_nums col = Inr ys"
    and e: "cell24 ext s =
               s\<lparr>heap := (heap s)(r \<mapsto> df\<lparr>cols := AList.update WEALTH_CATEGORY
                     (map Str (categorize_wealth_index ys)) (cols df)\<rparr>)\<rparr>"
    by blast
  have "wealth_scores s = Inr ys"
    using a by (simp add: wealth_scores_def rollout_aoi_getitem_def deref_def getitem_def)
  then have "ys = xs" using assms(1) by simp
  then show ?thesis
    unfolding e using a
    by (simp add: rollout_aoi_getitem_def deref_def getitem_def update_conv')
qed

text \<open>
  C4. Binning is idempotent. Running cell 24 a second time leaves the notebook as the
  first run left it: the first run does not touch the score column, so the second reads
  the same scores, computes the same quintile edges, and overwrites the category column
  with the labels it already holds.
\<close>

theorem binning_idempotent:
  "cell24 ext (cell24 ext s) = cell24 ext s
   \<and> wealth_scores (cell24 ext s) = wealth_scores s
   \<and> map_sum id quintile_edges (wealth_scores (cell24 ext s))
       = map_sum id quintile_edges (wealth_scores s)
   \<and> (\<forall>xs. wealth_scores s = Inr xs \<and> raised (cell24 ext s) = None \<longrightarrow>
         rollout_aoi_getitem WEALTH_CATEGORY (cell24 ext s)
           = Inr (map Str (categorize_wealth_index xs))
         \<and> rollout_aoi_getitem WEALTH_CATEGORY (cell24 ext (cell24 ext s))
           = Inr (map Str (categorize_wealth_index xs)))"
proof (intro conjI allI impI)
  show "cell24 ext (cell24 ext s) = cell24 ext s" by (rule cell24_twice)
  show "wealth_scores (cell24 ext s) = wealth_scores s" by (rule wealth_scores_cell24)
  show "map_sum id quintile_edges (wealth_scores (cell24 ext s))
       = map_sum id quintile_edges (wealth_scores s)"
    by (simp only: wealth_scores_cell24)
next
  fix xs
  assume a: "wealth_scores s = Inr xs \<and> raised (cell24 ext s) = None"
  then show "rollout_aoi_getitem WEALTH_CATEGORY (cell24 ext s)
           = Inr (map Str (categorize_wealth_index xs))"
    using cell24_category by blast
  then show "rollout_aoi_getitem WEALTH_CATEGORY (cell24 ext (cell24 ext s))
           = Inr (map Str (categorize_wealth_index xs))"
    by (simp only: cell24_twice)
qed

theorem binning_idempotent_witness:
  "wealth_scores (run_cells (take 6 (cells example_externals)) (example_kernel halving_model))
     = Inr [0, 1 / 2]
   \<and> raised (cell24 example_externals
        (run_cells (take 6 (cells example_externals)) (example_kernel halving_model))) = None
   \<and> rollout_aoi_getitem WEALTH_CATEGORY
       (cell24 example_externals (cell24 example_externals
          (run_cells (take 6 (cells example_externals)) (example_kernel halving_model))))
       = Inr [Str ''E'', Str ''A'']"
proof -
  let ?s = "run_cells (take 6 (cells example_externals)) (example_kernel halving_model)"
  have h1: "wealth_scores ?s = Inr [0, 1 / 2]" by code_simp
  have h2: "raised (cell24 example_externals ?s) = None" by code_simp
  have v: "categorize_wealth_index [0, 1 / 2] = [''E'', ''A'']" by code_simp
  from binning_idempotent [of example_externals ?s] h1 h2
  have "rollout_aoi_getitem WEALTH_CATEGORY (cell24 example_externals (cell24 example_externals ?s))
       = Inr (map Str (categorize_wealth_index [0, 1 / 2]))"
    by blast
  with h1 h2 v show ?thesis by simp
qed

subsection \<open>Exceptions\<close>





subsection \<open>The grid frame and its copy\<close>

lemma run_cells_invariant:
  assumes "\<And>c s. c \<in> set cs \<Longrightarrow> P s \<Longrightarrow> P (c s)" and "P s"
  shows "P (run_cells cs s)"
  using assms
proof (induction cs arbitrary: s)
  case Nil
  then show ?case by simp
next
  case (Cons c cs)
  have "P (run_cell c s)" using Cons.prems by (simp add: run_cell_def)
  then show ?case using Cons.IH Cons.prems by simp
qed

lemma later_cells_keep_aoi:
  assumes "c \<in> set (drop 2 (cells ext))"
    and "aoi s = Some a \<and> heap s a = Some df \<and> a < next_ref s \<and> rollout_aoi s \<noteq> Some a"
  shows "aoi (c s) = Some a \<and> heap (c s) a = Some df \<and> a < next_ref (c s)
         \<and> rollout_aoi (c s) \<noteq> Some a"
proof -
  from assms(1) consider "c = cell14 ext" | "c = cell15 ext"
    | "c = cell20 ext" | "c = cell22 ext" | "c = cell24 ext" | "c = cell28 ext"
    | "c = cell29 ext" | "c = cell34 ext" | "c = cell36 ext"
    by (auto simp: cells_def)
  then show ?thesis
  proof cases
    case 1
    then show ?thesis using assms(2)
      by (auto simp: cell14_def deref_def raise_def Let_def split: sum.splits option.splits)
  next
    case 2
    then show ?thesis using assms(2)
      by (auto simp: cell15_def raise_def split: option.splits)
  next
    case 3
    then show ?thesis using assms(2)
      by (auto simp: cell20_def raise_def split: option.splits file_data.splits)
  next
    case 4
    then show ?thesis using assms(2)
      by (auto simp: cell22_def deref_def setitem_def raise_def
          split: sum.splits option.splits if_splits)
  next
    case 5
    then show ?thesis using assms(2)
      by (auto simp: cell24_def deref_def getitem_def setitem_def raise_def
          split: sum.splits option.splits if_splits)
  next
    case 6
    then show ?thesis using assms(2)
      by (auto simp: cell28_def deref_def to_file_def raise_def
          split: sum.splits option.splits if_splits)
  next
    case 7
    then show ?thesis using assms(2) cell29_frame [of ext s] by simp
  next
    case 8
    then show ?thesis using assms(2) plot_cell_frame [of WEALTH_INDEX _ ext s]
      by (simp add: cell34_def)
  next
    case 9
    then show ?thesis using assms(2) plot_cell_frame [of WEALTH_CATEGORY _ ext s]
      by (simp add: cell36_def)
  qed
qed

lemma grid_loaded:
  assumes "raised (run_cells (take 2 (cells ext)) (fresh_kernel env lines fs w)) = None"
  shows "\<exists>df. fs (rollout_grids_path ext) = Some (GeoJSON df)
           \<and> aoi (run_cells (take 2 (cells ext)) (fresh_kernel env lines fs w)) = Some 0
           \<and> heap (run_cells (take 2 (cells ext)) (fresh_kernel env lines fs w)) 0 = Some df
           \<and> next_ref (run_cells (take 2 (cells ext)) (fresh_kernel env lines fs w)) = 1
           \<and> rollout_aoi (run_cells (take 2 (cells ext)) (fresh_kernel env lines fs w)) = None"
proof -
  define s0 where "s0 = fresh_kernel env lines fs w"
  define s1 where "s1 = run_cell (cell5 ext) s0"
  define s2 where "s2 = run_cell (cell11 ext) s1"
  have t: "run_cells (take 2 (cells ext)) (fresh_kernel env lines fs w) = s2"
    by (simp add: cells_def s0_def s1_def s2_def)
  have r2: "raised s2 = None" using assms t by simp
  have c2: "raised s1 = None" "s2 = cell11 ext s1"
    using run_cell_ok [of "cell11 ext" s1] r2 by (simp_all add: s2_def)
  have c1: "s1 = cell5 ext s0"
    using run_cell_ok [of "cell5 ext" s0] c2(1) by (simp add: s1_def)
  have f1: "files s1 = fs" "heap s1 = Map.empty" "next_ref s1 = 0" "rollout_aoi s1 = None"
    using cell5_frame [of ext s0] by (simp_all add: c1 s0_def fresh_kernel_def)
  from cell11_ok [of ext s1] r2 c2(2)
  obtain df where df: "files s1 (rollout_grids_path ext) = Some (GeoJSON df)"
    and e2: "s2 = s1\<lparr>heap := (heap s1)(next_ref s1 \<mapsto> df), next_ref := Suc (next_ref s1),
                aoi := Some (next_ref s1)\<rparr>"
    by auto
  have "fs (rollout_grids_path ext) = Some (GeoJSON df)" using df f1 by simp
  moreover have "aoi s2 = Some 0" "heap s2 0 = Some df" "next_ref s2 = 1" "rollout_aoi s2 = None"
    by (simp_all add: e2 f1)
  ultimately show ?thesis unfolding t by blast
qed

text \<open>
  C10. The grid frame \<open>aoi\<close> is never changed after it is read. Once the grid has been
  loaded, after any number of further cells (whether or not one of them raises) the
  variable \<open>aoi\<close> still refers to the same object, that object is still the frame read
  from the grid file, column for column and value for value, and \<open>rollout_aoi\<close> is a
  different object: the writes of prediction and binning go to the copy.
\<close>

theorem aoi_never_mutated:
  assumes "raised (run_cells (take 2 (cells ext)) (fresh_kernel env lines fs w)) = None"
    and "2 \<le> k"
  shows "\<exists>a df. fs (rollout_grids_path ext) = Some (GeoJSON df)
           \<and> aoi (run_cells (take 2 (cells ext)) (fresh_kernel env lines fs w)) = Some a
           \<and> heap (run_cells (take 2 (cells ext)) (fresh_kernel env lines fs w)) a = Some df
           \<and> aoi (run_cells (take k (cells ext)) (fresh_kernel env lines fs w)) = Some a
           \<and> heap (run_cells (take k (cells ext)) (fresh_kernel env lines fs w)) a = Some df
           \<and> rollout_aoi (run_cells (take k (cells ext)) (fresh_kernel env lines fs w)) \<noteq> Some a"
proof -
  let ?s0 = "fresh_kernel env lines fs w"
  let ?s2 = "run_cells (take 2 (cells ext)) ?s0"
  from grid_loaded [OF assms(1)]
  obtain df where grid: "fs (rollout_grids_path ext) = Some (GeoJSON df)"
    and s2: "aoi ?s2 = Some 0" "heap ?s2 0 = Some df" "next_ref ?s2 = 1" "rollout_aoi ?s2 = None"
    by blast
  let ?P = "\<lambda>s :: notebook. aoi s = Some 0 \<and> heap s 0 = Some df \<and> 0 < next_ref s \<and> rollout_aoi s \<noteq> Some 0"
  have "?P (run_cells (take (k - 2) (drop 2 (cells ext))) ?s2)"
  proof (rule run_cells_invariant [where P = ?P])
    fix c s
    assume "c \<in> set (take (k - 2) (drop 2 (cells ext)))" and "?P s"
    then have "c \<in> set (drop 2 (cells ext))" by (auto dest: in_set_takeD)
    then show "?P (c s)" using \<open>?P s\<close> by (rule later_cells_keep_aoi)
  next
    show "?P ?s2" using s2 by simp
  qed
  then have "?P (run_cells (take k (cells ext)) ?s0)"
    using run_cells_take_split [OF assms(2), of "cells ext" ?s0] by simp
  with grid s2 show ?thesis by blast
qed

theorem aoi_never_mutated_witness:
  "raised (run_cells (take 2 (cells example_externals)) (example_kernel halving_model)) = None
   \<and> (2::nat) \<le> 11
   \<and> aoi (run_cells (take 11 (cells example_externals)) (example_kernel halving_model)) = Some 0
   \<and> heap (run_cells (take 11 (cells example_externals)) (example_kernel halving_model)) 0
       = Some example_grid
   \<and> rollout_aoi (run_cells (take 11 (cells example_externals)) (example_kernel halving_model))
       = Some 1"
proof -
  have h1: "raised (run_cells (take 2 (cells example_externals)) (example_kernel halving_model)) = None"
    by code_simp
  have h2: "(2::nat) \<le> 11" by simp
  have a: "aoi (run_cells (take 11 (cells example_externals)) (example_kernel halving_model)) = Some 0"
    by code_simp
  have r: "rollout_aoi (run_cells (take 11 (cells example_externals)) (example_kernel halving_model))
       = Some 1"
    by code_simp
  from aoi_never_mutated [OF h1 [unfolded example_kernel_fresh] h2] example_grid_file [of halving_model] a
  have "heap (run_cells (take 11 (cells example_externals)) (example_kernel halving_model)) 0
       = Some example_grid"
    unfolding example_kernel_fresh by auto
  with h1 h2 a r show ?thesis by blast
qed

end
